theory Spec2Isabelle
  imports Complex_Main "HOL-Library.Signed_Division"
begin

section \<open>Numbers\<close>

text \<open>
  The scheduler computes on JavaScript numbers. Durations, loads and scores are modelled
  as \<^typ>\<open>real\<close>, counts, indices and epoch milliseconds as \<^typ>\<open>int\<close>; rounding of
  IEEE doubles and non-finite \<^emph>\<open>inputs\<close> are outside the model. Where the code itself can
  produce a non-finite value from finite operands (a division by zero, the literal
  \<^verbatim>\<open>Infinity\<close>) the result type is \<open>number\<close>, which keeps those values apart.
\<close>

datatype number = Finite real | Infinity | NegInfinity | NaN

text \<open>\<^verbatim>\<open>a / b\<close> on finite operands.\<close>

definition js_divide :: "real \<Rightarrow> real \<Rightarrow> number" where
  "js_divide a b =
     (if b \<noteq> 0 then Finite (a / b)
      else if 0 < a then Infinity
      else if a < 0 then NegInfinity
      else NaN)"

text \<open>\<^verbatim>\<open>Math.min(a, x)\<close> with a finite first argument.\<close>

fun Math_min :: "real \<Rightarrow> number \<Rightarrow> number" where
  "Math_min a (Finite b) = Finite (min a b)"
| "Math_min a Infinity = Finite a"
| "Math_min a NegInfinity = NegInfinity"
| "Math_min a NaN = NaN"

section \<open>EMA utilities (predictor/ema.ts)\<close>

record EMAState =
  taskType :: string
  ema :: real
  sampleCount :: int
  lastUpdated :: int

definition updateEMA :: "real \<Rightarrow> real \<Rightarrow> real \<Rightarrow> real" where
  "updateEMA current actual alpha = alpha * actual + (1 - alpha) * current"

definition calculateConfidence :: "int \<Rightarrow> real \<Rightarrow> number" where
  "calculateConfidence n threshold = Math_min 1 (js_divide (real_of_int n) threshold)"

definition initializeEMA :: "int \<Rightarrow> string \<Rightarrow> real \<Rightarrow> EMAState" where
  "initializeEMA now ty initialValue =
     \<lparr>taskType = ty, ema = initialValue, sampleCount = 0, lastUpdated = now\<rparr>"

definition updateEMAState :: "int \<Rightarrow> EMAState \<Rightarrow> real \<Rightarrow> real \<Rightarrow> EMAState" where
  "updateEMAState now state actual alpha =
     state\<lparr>ema := (if sampleCount state = 0 then actual
                    else updateEMA (ema state) actual alpha),
            sampleCount := sampleCount state + 1,
            lastUpdated := now\<rparr>"

section \<open>Tasks and predictions (interfaces/types.ts)\<close>

datatype json =
  JNull | JBool bool | JNum real | JStr string | JArr "json list" | JObj "(string \<times> json) list"

record TaskMetadata =
  md_estimatedDurationMs :: "real option"
  requiredCapabilities :: "string list option"
  maxRetries :: "int option"
  timeout :: "real option"

record Task =
  task_id :: string
  task_type :: string
  payload :: json
  priority :: real
  createdAt :: int
  metadata :: "TaskMetadata option"

record TaskPrediction =
  pred_taskId :: string
  recommendedWorkerId :: string
  confidence :: number
  estimatedDurationMs :: real
  alternativeWorkers :: "string list option"

section \<open>Heuristic predictor (predictor/heuristic-predictor.ts)\<close>

record HeuristicPredictorConfig =
  alpha :: real
  defaultDurationMs :: real
  confidenceThreshold :: real

definition DEFAULT_PREDICTOR_CONFIG :: HeuristicPredictorConfig where
  "DEFAULT_PREDICTOR_CONFIG =
     \<lparr>alpha = 3 / 10, defaultDurationMs = 5000, confidenceThreshold = 100\<rparr>"

text \<open>The predictor's state is the map \<^verbatim>\<open>predictions\<close> from task type to EMA state.\<close>

type_synonym predictions = "string \<rightharpoonup> EMAState"

definition predict :: "HeuristicPredictorConfig \<Rightarrow> predictions \<Rightarrow> Task \<Rightarrow> TaskPrediction" where
  "predict cfg preds task =
     (case preds (task_type task) of
        Some state \<Rightarrow>
          \<lparr>pred_taskId = task_id task, recommendedWorkerId = [],
           confidence = calculateConfidence (sampleCount state) (confidenceThreshold cfg),
           estimatedDurationMs = ema state, alternativeWorkers = None\<rparr>
      | None \<Rightarrow>
          \<lparr>pred_taskId = task_id task, recommendedWorkerId = [],
           confidence = Finite 0,
           estimatedDurationMs = defaultDurationMs cfg, alternativeWorkers = None\<rparr>)"

text \<open>
  \<^verbatim>\<open>feedback(_taskId, _workerId, _success, actualDurationMs, taskType?)\<close>: the optional
  task type is falsy when it is absent or the empty string, and the call is then ignored
  with a warning. The persistence counter that follows the update does not touch the map.
\<close>

definition feedback ::
  "HeuristicPredictorConfig \<Rightarrow> int \<Rightarrow> real \<Rightarrow> string option \<Rightarrow> predictions \<Rightarrow> predictions" where
  "feedback cfg now actualDurationMs ty preds =
     (case ty of
        None \<Rightarrow> preds
      | Some t \<Rightarrow>
          if t = [] then preds
          else
            let state = (case preds t of
                           None \<Rightarrow> initializeEMA now t (defaultDurationMs cfg)
                         | Some s \<Rightarrow> s)
            in preds(t \<mapsto> updateEMAState now state actualDurationMs (alpha cfg)))"

section \<open>Drift detector (feedback/drift-detector.ts)\<close>

record DriftConfig =
  lowerThreshold :: real
  upperThreshold :: real

definition DEFAULT_DRIFT_CONFIG :: DriftConfig where
  "DEFAULT_DRIFT_CONFIG = \<lparr>lowerThreshold = 1 / 2, upperThreshold = 2\<rparr>"

datatype severity = Sev_none | Sev_minor | Sev_major

text \<open>
  The message is a template string; the model keeps which template was chosen and the
  values it interpolates (actual, predicted, ratio), not the formatted digits.
\<close>

datatype drift_message =
  Invalid_prediction
| Prediction_accurate real
| Underprediction real real real
| Overprediction real real real

record DriftResult =
  isDrift :: bool
  ratio :: number
  severity :: severity
  message :: drift_message

definition detectDrift :: "real \<Rightarrow> real \<Rightarrow> DriftConfig \<Rightarrow> DriftResult" where
  "detectDrift predicted actual config =
     (if predicted \<le> 0 then
        \<lparr>isDrift = True, ratio = Infinity, severity = Sev_major, message = Invalid_prediction\<rparr>
      else
        let r = actual / predicted;
            drift = (r < lowerThreshold config \<or> r > upperThreshold config);
            sev = (if drift then (if r < 33 / 100 \<or> r > 3 then Sev_major else Sev_minor)
                   else Sev_none);
            msg = (if \<not> drift then Prediction_accurate r
                   else if actual > predicted then Underprediction actual predicted r
                   else Overprediction actual predicted r)
        in \<lparr>isDrift = drift, ratio = Finite r, severity = sev, message = msg\<rparr>)"

definition calculateDeviation :: "real \<Rightarrow> real \<Rightarrow> real" where
  "calculateDeviation predicted actual =
     (if predicted = 0 then (if actual = 0 then 0 else 1)
      else \<bar>actual - predicted\<bar> / predicted)"

definition isWithinThreshold :: "real \<Rightarrow> real \<Rightarrow> real \<Rightarrow> bool" where
  "isWithinThreshold predicted actual threshold =
     (calculateDeviation predicted actual \<le> threshold)"

section \<open>Accuracy tracker (feedback/accuracy-tracker.ts)\<close>

record PredictionSample =
  s_taskType :: string
  s_predicted :: real
  s_actual :: real
  s_timestamp :: int
  withinThreshold :: bool

record AccuracyStats =
  total :: int
  st_withinThreshold :: int
  accuracy :: real
  avgDeviation :: real
  taskTypes :: int

record AccuracyTrackerConfig =
  windowSize :: int
  tr_accuracyThreshold :: real

text \<open>\<^verbatim>\<open>record\<close>: push the sample, then shift the oldest one out when the window overflows.\<close>

definition tracker_record ::
  "AccuracyTrackerConfig \<Rightarrow> int \<Rightarrow> string \<Rightarrow> real \<Rightarrow> real \<Rightarrow>
   PredictionSample list \<Rightarrow> PredictionSample list" where
  "tracker_record cfg now ty predicted actual samples =
     (let sample = \<lparr>s_taskType = ty, s_predicted = predicted, s_actual = actual,
                     s_timestamp = now,
                     withinThreshold =
                       isWithinThreshold predicted actual (tr_accuracyThreshold cfg)\<rparr>;
          pushed = samples @ [sample]
      in if int (length pushed) > windowSize cfg then tl pushed else pushed)"

definition getStats :: "PredictionSample list \<Rightarrow> AccuracyStats" where
  "getStats samples =
     (if length samples = 0 then
        \<lparr>total = 0, st_withinThreshold = 0, accuracy = 0, avgDeviation = 0, taskTypes = 0\<rparr>
      else
        let inWindow = int (length (filter withinThreshold samples));
            types = int (card (set (map s_taskType samples)));
            totalDeviation =
              foldl (\<lambda>sum s. sum + \<bar>s_actual s - s_predicted s\<bar> / max (s_predicted s) 1)
                0 samples
        in \<lparr>total = int (length samples), st_withinThreshold = inWindow,
            accuracy = real_of_int inWindow / real (length samples),
            avgDeviation = totalDeviation / real (length samples),
            taskTypes = types\<rparr>)"

definition isAccuracyBelowTarget :: "PredictionSample list \<Rightarrow> real \<Rightarrow> bool" where
  "isAccuracyBelowTarget samples target =
     (let stats = getStats samples in total stats > 0 \<and> accuracy stats < target)"

section \<open>Completion subscriber (feedback/completion-subscriber.ts)\<close>

record TaskCompletion =
  c_taskId :: string
  c_taskType :: string
  c_workerId :: string
  startedAt :: int
  completedAt :: int
  durationMs :: real
  success :: bool
  predictedDurationMs :: "real option"

record CompletionSubscriberConfig =
  drift :: DriftConfig
  accuracyWindowSize :: int
  accuracyThreshold :: real

definition DEFAULT_COMPLETION_CONFIG :: CompletionSubscriberConfig where
  "DEFAULT_COMPLETION_CONFIG =
     \<lparr>drift = DEFAULT_DRIFT_CONFIG, accuracyWindowSize = 1000, accuracyThreshold = 1 / 4\<rparr>"

datatype FeedbackEvent =
  drift_detected string DriftResult
| prediction_updated string real real
| accuracy_warning AccuracyStats

text \<open>
  The subscriber's state: the running flag, the completion counter, the tracker's window,
  the attached predictor (here the heuristic one, with its configuration and map; \<open>None\<close>
  when no predictor was set) and the feedback events emitted so far, oldest first.
\<close>

record subscriber =
  isRunning :: bool
  completionCount :: int
  samples :: "PredictionSample list"
  sub_predictor :: "(HeuristicPredictorConfig \<times> predictions) option"
  emitted :: "FeedbackEvent list"

definition checkAccuracy :: "subscriber \<Rightarrow> subscriber" where
  "checkAccuracy st =
     (if isAccuracyBelowTarget (samples st) (8 / 10)
      then st\<lparr>emitted := emitted st @ [accuracy_warning (getStats (samples st))]\<rparr>
      else st)"

text \<open>
  \<^verbatim>\<open>if (predicted && predicted > 0)\<close>: an absent prediction and the number 0 are falsy.
\<close>

definition processCompletion ::
  "CompletionSubscriberConfig \<Rightarrow> int \<Rightarrow> TaskCompletion \<Rightarrow> subscriber \<Rightarrow> subscriber" where
  "processCompletion cfg now completion st =
     (if \<not> isRunning st then st
      else
        let st1 = st\<lparr>completionCount := completionCount st + 1\<rparr>;
            ty = c_taskType completion;
            actual = durationMs completion;
            st2 = (case predictedDurationMs completion of
                     None \<Rightarrow> st1
                   | Some predicted \<Rightarrow>
                       if predicted \<noteq> 0 \<and> predicted > 0 then
                         let d = detectDrift predicted actual (drift cfg);
                             st1' = (if isDrift d
                                     then st1\<lparr>emitted := emitted st1 @ [drift_detected ty d]\<rparr>
                                     else st1)
                         in st1'\<lparr>samples :=
                                   tracker_record
                                     \<lparr>windowSize = accuracyWindowSize cfg,
                                      tr_accuracyThreshold = accuracyThreshold cfg\<rparr>
                                     now ty predicted actual (samples st1')\<rparr>
                       else st1);
            st3 = (case sub_predictor st2 of
                     None \<Rightarrow> st2
                   | Some (pcfg, preds) \<Rightarrow>
                       st2\<lparr>sub_predictor := Some (pcfg, feedback pcfg now actual (Some ty) preds),
                           emitted := emitted st2 @
                             [prediction_updated ty
                                (case predictedDurationMs completion of
                                   None \<Rightarrow> 0 | Some p \<Rightarrow> p)
                                actual]\<rparr>)
        in if completionCount st3 smod 100 = 0 then checkAccuracy st3 else st3)"

section \<open>Worker registry (registry/worker-registry.ts)\<close>

datatype WorkerStatus = idle | busy | draining | offline

record WorkerMetadata =
  hostname :: "string option"
  version :: "string option"
  wm_startedAt :: "int option"
  tags :: "string list option"

record WorkerState =
  worker_id :: string
  status :: WorkerStatus
  capabilities :: "string list"
  currentLoad :: real
  lastHeartbeat :: int
  activeTasks :: int
  maxConcurrency :: int
  worker_metadata :: "WorkerMetadata option"

text \<open>
  A JavaScript \<^verbatim>\<open>Map\<close> iterates in insertion order: \<^verbatim>\<open>set\<close> on a key that is present
  replaces the value where it stands, on a new key it appends.
\<close>

fun map_set :: "'k \<Rightarrow> 'v \<Rightarrow> ('k \<times> 'v) list \<Rightarrow> ('k \<times> 'v) list" where
  "map_set k v [] = [(k, v)]"
| "map_set k v ((k', v') # kvs) =
     (if k' = k then (k, v) # kvs else (k', v') # map_set k v kvs)"

record WorkerRegistry =
  workers :: "(string \<times> WorkerState) list"
  heartbeatTimeoutMs :: int

definition register :: "int \<Rightarrow> WorkerState \<Rightarrow> WorkerRegistry \<Rightarrow> WorkerRegistry" where
  "register now worker reg =
     reg\<lparr>workers := map_set (worker_id worker) (worker\<lparr>lastHeartbeat := now\<rparr>) (workers reg)\<rparr>"

definition unregister :: "string \<Rightarrow> WorkerRegistry \<Rightarrow> bool \<times> WorkerRegistry" where
  "unregister workerId reg =
     (workerId \<in> fst ` set (workers reg),
      reg\<lparr>workers := filter (\<lambda>kv. fst kv \<noteq> workerId) (workers reg)\<rparr>)"

definition registry_get :: "WorkerRegistry \<Rightarrow> string \<Rightarrow> WorkerState option" where
  "registry_get reg workerId = map_of (workers reg) workerId"

definition heartbeat :: "int \<Rightarrow> string \<Rightarrow> WorkerRegistry \<Rightarrow> bool \<times> WorkerRegistry" where
  "heartbeat now workerId reg =
     (case registry_get reg workerId of
        None \<Rightarrow> (False, reg)
      | Some worker \<Rightarrow>
          (True, reg\<lparr>workers := map_set workerId (worker\<lparr>lastHeartbeat := now\<rparr>) (workers reg)\<rparr>))"

definition updateStatus :: "string \<Rightarrow> WorkerStatus \<Rightarrow> WorkerRegistry \<Rightarrow> bool \<times> WorkerRegistry" where
  "updateStatus workerId st reg =
     (case registry_get reg workerId of
        None \<Rightarrow> (False, reg)
      | Some worker \<Rightarrow>
          (True, reg\<lparr>workers := map_set workerId (worker\<lparr>status := st\<rparr>) (workers reg)\<rparr>))"

definition updateLoad :: "string \<Rightarrow> real \<Rightarrow> int \<Rightarrow> WorkerRegistry \<Rightarrow> bool \<times> WorkerRegistry" where
  "updateLoad workerId load n reg =
     (case registry_get reg workerId of
        None \<Rightarrow> (False, reg)
      | Some worker \<Rightarrow>
          (True, reg\<lparr>workers :=
                   map_set workerId
                     (worker\<lparr>currentLoad := max 0 (min 1 load), activeTasks := n\<rparr>)
                     (workers reg)\<rparr>))"

text \<open>
  \<^verbatim>\<open>capabilities && capabilities.length > 0\<close>: an absent and an empty requirement both
  skip the capability filter.
\<close>

definition hasCapabilities :: "string list option \<Rightarrow> WorkerState \<Rightarrow> bool" where
  "hasCapabilities required worker =
     (case required of
        None \<Rightarrow> True
      | Some caps \<Rightarrow>
          if length caps > 0 then list_all (\<lambda>cap. cap \<in> set (capabilities worker)) caps
          else True)"

definition getAvailable :: "int \<Rightarrow> string list option \<Rightarrow> WorkerRegistry \<Rightarrow> WorkerState list" where
  "getAvailable now required reg =
     filter
       (\<lambda>worker.
          \<not> (status worker = offline \<or> status worker = draining) \<and>
          \<not> (now - lastHeartbeat worker > heartbeatTimeoutMs reg) \<and>
          \<not> (activeTasks worker \<ge> maxConcurrency worker) \<and>
          hasCapabilities required worker)
       (map snd (workers reg))"

definition getAll :: "WorkerRegistry \<Rightarrow> WorkerState list" where
  "getAll reg = map snd (workers reg)"

definition pruneStale :: "int \<Rightarrow> WorkerRegistry \<Rightarrow> string list \<times> WorkerRegistry" where
  "pruneStale now reg =
     (map fst (filter (\<lambda>kv. now - lastHeartbeat (snd kv) > heartbeatTimeoutMs reg) (workers reg)),
      reg\<lparr>workers :=
            map (\<lambda>kv. if now - lastHeartbeat (snd kv) > heartbeatTimeoutMs reg
                       then (fst kv, (snd kv)\<lparr>status := offline\<rparr>) else kv)
              (workers reg)\<rparr>)"

definition clear :: "WorkerRegistry \<Rightarrow> WorkerRegistry" where
  "clear reg = reg\<lparr>workers := []\<rparr>"

text \<open>The invariant of C7: every worker state held in the registry has its load in [0,1].\<close>

definition loads_in_range :: "WorkerRegistry \<Rightarrow> bool" where
  "loads_in_range reg =
     list_all (\<lambda>kv. 0 \<le> currentLoad (snd kv) \<and> currentLoad (snd kv) \<le> 1) (workers reg)"

text \<open>
  What the \<^verbatim>\<open>Map\<close> guarantees and \<open>register\<close> maintains: keys are distinct, and each
  state is stored under its own id.
\<close>

definition registry_wf :: "WorkerRegistry \<Rightarrow> bool" where
  "registry_wf reg =
     (distinct (map fst (workers reg)) \<and>
      list_all (\<lambda>kv. worker_id (snd kv) = fst kv) (workers reg))"

section \<open>Objective functions (scorer/objectives.ts)\<close>

definition DEFAULT_MAX_WAIT_MS :: real where
  "DEFAULT_MAX_WAIT_MS = 60000"

definition DEFAULT_MAX_PRIORITY :: real where
  "DEFAULT_MAX_PRIORITY = 10"

definition calculateWaitScore :: "real \<Rightarrow> real \<Rightarrow> real" where
  "calculateWaitScore estimatedWaitMs maxWait =
     (if estimatedWaitMs \<le> 0 then 1
      else if estimatedWaitMs \<ge> maxWait then 0
      else 1 - estimatedWaitMs / maxWait)"

definition calculateLoadScore :: "real \<Rightarrow> real" where
  "calculateLoadScore l = 1 - max 0 (min 1 l)"

definition calculatePriorityScore :: "real \<Rightarrow> real \<Rightarrow> real" where
  "calculatePriorityScore p maxP =
     (if p \<le> 0 then 0
      else if p \<ge> maxP then 1
      else p / maxP)"

definition estimateWaitTime :: "WorkerState \<Rightarrow> TaskPrediction option \<Rightarrow> real" where
  "estimateWaitTime worker pred =
     real_of_int (activeTasks worker) *
       (case pred of Some p \<Rightarrow> estimatedDurationMs p | None \<Rightarrow> 5000)"

definition isWorkerEligible :: "WorkerState \<Rightarrow> string list option \<Rightarrow> bool" where
  "isWorkerEligible worker required =
     (if status worker = offline \<or> status worker = draining then False
      else if activeTasks worker \<ge> maxConcurrency worker then False
      else (case required of
              None \<Rightarrow> True
            | Some caps \<Rightarrow>
                if length caps > 0
                then list_all (\<lambda>cap. cap \<in> set (capabilities worker)) caps
                else True))"

section \<open>Multi-objective scorer (scorer/scorer.ts)\<close>

record ScoringWeights =
  w_wait :: real
  w_load :: real
  w_priority :: real

definition DEFAULT_SCORING_WEIGHTS :: ScoringWeights where
  "DEFAULT_SCORING_WEIGHTS = \<lparr>w_wait = 4 / 10, w_load = 4 / 10, w_priority = 2 / 10\<rparr>"

record ScorerConfig =
  weights :: ScoringWeights
  maxWaitMs :: real
  maxPriority :: real

definition DEFAULT_SCORER_CONFIG :: ScorerConfig where
  "DEFAULT_SCORER_CONFIG =
     \<lparr>weights = DEFAULT_SCORING_WEIGHTS, maxWaitMs = DEFAULT_MAX_WAIT_MS,
      maxPriority = DEFAULT_MAX_PRIORITY\<rparr>"

record ScoreBreakdown =
  waitScore :: real
  loadScore :: real
  priorityScore :: real

record WorkerScore =
  ws_workerId :: string
  ws_score :: real
  breakdown :: ScoreBreakdown

text \<open>
  The reasoning is a template string over the best score, its breakdown, the task id and
  the task priority; the model keeps those values.
\<close>

datatype reasoning = Selected WorkerScore string real

record ScoringResult =
  sr_workerId :: string
  sr_score :: real
  sr_reasoning :: reasoning
  alternatives :: "WorkerScore list"

text \<open>\<^verbatim>\<open>task.metadata?.requiredCapabilities\<close>\<close>

definition task_requiredCapabilities :: "Task \<Rightarrow> string list option" where
  "task_requiredCapabilities task =
     (case metadata task of None \<Rightarrow> None | Some m \<Rightarrow> requiredCapabilities m)"

definition scoreWorker ::
  "ScorerConfig \<Rightarrow> Task \<Rightarrow> TaskPrediction option \<Rightarrow> WorkerState \<Rightarrow> WorkerScore" where
  "scoreWorker cfg task pred worker =
     (let estimatedWaitMs = estimateWaitTime worker pred;
          ws = calculateWaitScore estimatedWaitMs (maxWaitMs cfg);
          ls = calculateLoadScore (currentLoad worker);
          ps = calculatePriorityScore (priority task) (maxPriority cfg)
      in \<lparr>ws_workerId = worker_id worker,
          ws_score = w_wait (weights cfg) * ws + w_load (weights cfg) * ls
                     + w_priority (weights cfg) * ps,
          breakdown = \<lparr>waitScore = ws, loadScore = ls, priorityScore = ps\<rparr>\<rparr>)"

text \<open>
  \<^verbatim>\<open>scores.sort((a, b) => b.score - a.score)\<close> is a stable sort by descending score:
  \<open>sort_key\<close> on the negated score, which is insertion sort and keeps equal keys in their
  order.
\<close>

definition score ::
  "ScorerConfig \<Rightarrow> Task \<Rightarrow> WorkerState list \<Rightarrow> TaskPrediction option \<Rightarrow> ScoringResult option" where
  "score cfg task ws pred =
     (let eligibleWorkers = filter (\<lambda>w. isWorkerEligible w (task_requiredCapabilities task)) ws
      in if length eligibleWorkers = 0 then None
         else
           (case sort_key (\<lambda>s. - ws_score s) (map (scoreWorker cfg task pred) eligibleWorkers) of
              [] \<Rightarrow> None
            | best # rest \<Rightarrow>
                Some \<lparr>sr_workerId = ws_workerId best, sr_score = ws_score best,
                      sr_reasoning = Selected best (task_id task) (priority task),
                      alternatives = rest\<rparr>))"

section \<open>Scheduling decisions (interfaces/types.ts)\<close>

datatype SchedulingReason =
  Prediction | Fallback_round_robin | Fallback_circuit_breaker | Capability_match | Load_balance

record SchedulingDecision =
  taskId :: string
  workerId :: string
  timestamp :: int
  usedFallback :: bool
  prediction :: "TaskPrediction option"
  reason :: SchedulingReason

record DispatchResult =
  dr_success :: bool
  dr_decision :: SchedulingDecision
  dr_error :: "string option"

record CircuitBreakerState =
  failures :: int
  lastFailure :: "int option"
  isOpen :: bool

text \<open>A thrown value: an \<^verbatim>\<open>Error\<close> with its message, or anything else.\<close>

datatype thrown = Error string | NonError

section \<open>Round-robin fallback scheduler (fallback/round-robin.ts)\<close>

text \<open>
  The scheduler's state is the cursor \<^verbatim>\<open>lastIndex\<close>, initially \<open>-1\<close>. \<^verbatim>\<open>%\<close> is the
  truncating remainder \<open>smod\<close>. The cursor is assigned before the array is read; an index
  outside the array reads \<^verbatim>\<open>undefined\<close>, whose \<^verbatim>\<open>.id\<close> throws a TypeError.
\<close>

definition schedule ::
  "WorkerRegistry \<Rightarrow> int \<Rightarrow> Task \<Rightarrow> SchedulingReason \<Rightarrow> int \<Rightarrow>
   (thrown + SchedulingDecision option) \<times> int" where
  "schedule reg now task rsn cursor =
     (let available = getAvailable now (task_requiredCapabilities task) reg
      in if length available = 0 then (Inr None, cursor)
         else
           let cursor' = (cursor + 1) smod int (length available)
           in if 0 \<le> cursor' \<and> cursor' < int (length available) then
                (Inr (Some \<lparr>taskId = task_id task,
                             workerId = worker_id (available ! nat cursor'),
                             timestamp = now, usedFallback = True, prediction = None,
                             reason = rsn\<rparr>),
                 cursor')
              else (Inl (Error ''TypeError''), cursor'))"

text \<open>
  A run of consecutive calls \<open>(now, task, reason)\<close> on one registry, threading the cursor.
\<close>

fun schedule_calls ::
  "WorkerRegistry \<Rightarrow> (int \<times> Task \<times> SchedulingReason) list \<Rightarrow> int \<Rightarrow>
   (thrown + SchedulingDecision option) list \<times> int" where
  "schedule_calls reg [] cursor = ([], cursor)"
| "schedule_calls reg ((now, task, rsn) # calls) cursor =
     (let (r, cursor') = schedule reg now task rsn cursor;
          (rs, cursor'') = schedule_calls reg calls cursor'
      in (r # rs, cursor''))"

text \<open>How many results of a run are decisions for the given worker id.\<close>

definition dispatches_to :: "string \<Rightarrow> (thrown + SchedulingDecision option) list \<Rightarrow> nat" where
  "dispatches_to wid results =
     length (filter (\<lambda>r. case r of Inr (Some d) \<Rightarrow> workerId d = wid | _ \<Rightarrow> False) results)"

text \<open>The worker id a result of \<open>schedule\<close> dispatches to, if it is a decision.\<close>

definition pick :: "(thrown + SchedulingDecision option) \<Rightarrow> string option" where
  "pick r = (case r of Inr (Some d) \<Rightarrow> Some (workerId d) | _ \<Rightarrow> None)"

section \<open>Dispatcher (dispatcher/dispatcher.ts)\<close>

text \<open>
  What the dispatcher can observe of Redis: the messages published per channel and the
  stream ids acknowledged, oldest first. The body of a published message is the JSON
  text of \<^verbatim>\<open>{taskId, task, assignedAt}\<close>; the model keeps the three values.
\<close>

record dispatch_message =
  m_taskId :: string
  m_task :: Task
  assignedAt :: int

record redis_log =
  published :: "(string \<times> dispatch_message) list"
  acked :: "string list"

datatype console_entry = Console_error string thrown | Console_warn string

text \<open>
  The dispatcher's fields: the Redis connection (\<open>None\<close> before \<^verbatim>\<open>connect\<close> and after
  \<^verbatim>\<open>disconnect\<close>), the registry it reads, the cursor of its round-robin scheduler, the
  configured failure threshold, the circuit breaker, the running flag; and the console
  output so far.
\<close>

record Dispatcher =
  redis :: "redis_log option"
  registry :: WorkerRegistry
  rr_lastIndex :: int
  fallbackThreshold :: int
  circuitBreaker :: CircuitBreakerState
  running :: bool
  console :: "console_entry list"

text \<open>
  What the outside does during one call of \<open>dispatchTask\<close>: the clock, the predictor
  (which returns a prediction or \<^verbatim>\<open>null\<close>, or throws), and whether \<^verbatim>\<open>publish\<close> and
  \<^verbatim>\<open>xack\<close> throw.
\<close>

record env =
  env_now :: int
  predictor :: "Task \<Rightarrow> thrown + TaskPrediction option"
  publish_throws :: "thrown option"
  xack_throws :: "thrown option"

definition DISPATCH_CHANNEL_PREFIX :: string where
  "DISPATCH_CHANNEL_PREFIX = ''nexus:worker:''"

definition new_Dispatcher :: "WorkerRegistry \<Rightarrow> int \<Rightarrow> Dispatcher" where
  "new_Dispatcher reg threshold =
     \<lparr>redis = None, registry = reg, rr_lastIndex = - 1, fallbackThreshold = threshold,
      circuitBreaker = \<lparr>failures = 0, lastFailure = None, isOpen = False\<rparr>,
      running = False, console = []\<rparr>"

definition connect :: "Dispatcher \<Rightarrow> Dispatcher" where
  "connect d = d\<lparr>redis := Some \<lparr>published = [], acked = []\<rparr>\<rparr>"

definition recordFailure :: "int \<Rightarrow> Dispatcher \<Rightarrow> Dispatcher" where
  "recordFailure now d =
     (let n = failures (circuitBreaker d) + 1;
          cb = (circuitBreaker d)\<lparr>failures := n, lastFailure := Some now\<rparr>
      in if n \<ge> fallbackThreshold d
         then d\<lparr>circuitBreaker := cb\<lparr>isOpen := True\<rparr>,
                console := console d @ [Console_warn ''Circuit breaker opened'']\<rparr>
         else d\<lparr>circuitBreaker := cb\<rparr>)"

definition resetCircuitBreaker :: "Dispatcher \<Rightarrow> Dispatcher" where
  "resetCircuitBreaker d =
     d\<lparr>circuitBreaker := \<lparr>failures = 0, lastFailure = None, isOpen = False\<rparr>\<rparr>"

text \<open>
  \<open>dispatchTask\<close>, first block: try the predictor if the breaker is closed. A prediction
  is used only if its recommended worker is registered and neither offline nor draining;
  only then is the breaker reset. A predictor that throws is logged and counted.
\<close>

definition dispatchTask_predict ::
  "env \<Rightarrow> Task \<Rightarrow> Dispatcher \<Rightarrow> SchedulingDecision option \<times> Dispatcher" where
  "dispatchTask_predict e task d =
     (if \<not> isOpen (circuitBreaker d) then
        (case predictor e task of
           Inl err \<Rightarrow>
             (None,
              recordFailure (env_now e)
                (d\<lparr>console := console d @ [Console_error ''Prediction failed:'' err]\<rparr>))
         | Inr None \<Rightarrow> (None, d)
         | Inr (Some p) \<Rightarrow>
             (case registry_get (registry d) (recommendedWorkerId p) of
                None \<Rightarrow> (None, d)
              | Some worker \<Rightarrow>
                  if status worker \<noteq> offline \<and> status worker \<noteq> draining then
                    (Some \<lparr>taskId = task_id task, workerId = recommendedWorkerId p,
                           timestamp = env_now e, usedFallback = False,
                           prediction = Some p, reason = Prediction\<rparr>,
                     resetCircuitBreaker d)
                  else (None, d)))
      else (None, d))"

text \<open>Second block: without a decision, fall back to round-robin.\<close>

definition dispatchTask_fallback ::
  "env \<Rightarrow> Task \<Rightarrow> SchedulingDecision option \<times> Dispatcher \<Rightarrow>
   (thrown + SchedulingDecision option) \<times> Dispatcher" where
  "dispatchTask_fallback e task sd =
     (case sd of
        (Some dec, d) \<Rightarrow> (Inr (Some dec), d)
      | (None, d) \<Rightarrow>
          let rsn = (if isOpen (circuitBreaker d) then Fallback_circuit_breaker
                     else Fallback_round_robin);
              (r, cursor) = schedule (registry d) (env_now e) task rsn (rr_lastIndex d)
          in (r, d\<lparr>rr_lastIndex := cursor\<rparr>))"

text \<open>\<^verbatim>\<open>err instanceof Error ? err.message : 'Dispatch failed'\<close>\<close>

definition dispatch_error_message :: "thrown \<Rightarrow> string" where
  "dispatch_error_message err = (case err of Error msg \<Rightarrow> msg | NonError \<Rightarrow> ''Dispatch failed'')"

text \<open>
  Third block: publish on the worker's channel, then acknowledge the stream message if an
  id was passed (\<^verbatim>\<open>if (messageId)\<close>: absent and empty ids are falsy). Whatever is thrown
  inside is caught and reported with the decision.
\<close>

definition dispatchTask_publish ::
  "env \<Rightarrow> Task \<Rightarrow> string option \<Rightarrow> SchedulingDecision \<Rightarrow> Dispatcher \<Rightarrow>
   DispatchResult \<times> Dispatcher" where
  "dispatchTask_publish e task messageId dec d =
     (case redis d of
        None \<Rightarrow> (\<lparr>dr_success = True, dr_decision = dec, dr_error = None\<rparr>, d)
      | Some r \<Rightarrow>
          (case publish_throws e of
             Some err \<Rightarrow>
               (\<lparr>dr_success = False, dr_decision = dec,
                 dr_error = Some (dispatch_error_message err)\<rparr>, d)
           | None \<Rightarrow>
               let r1 = r\<lparr>published := published r @
                           [(DISPATCH_CHANNEL_PREFIX @ workerId dec,
                             \<lparr>m_taskId = task_id task, m_task = task,
                              assignedAt = timestamp dec\<rparr>)]\<rparr>
               in case messageId of
                    None \<Rightarrow>
                      (\<lparr>dr_success = True, dr_decision = dec, dr_error = None\<rparr>,
                       d\<lparr>redis := Some r1\<rparr>)
                  | Some mid \<Rightarrow>
                      if mid = [] then
                        (\<lparr>dr_success = True, dr_decision = dec, dr_error = None\<rparr>,
                         d\<lparr>redis := Some r1\<rparr>)
                      else
                        (case xack_throws e of
                           Some err \<Rightarrow>
                             (\<lparr>dr_success = False, dr_decision = dec,
                               dr_error = Some (dispatch_error_message err)\<rparr>,
                              d\<lparr>redis := Some r1\<rparr>)
                         | None \<Rightarrow>
                             (\<lparr>dr_success = True, dr_decision = dec, dr_error = None\<rparr>,
                              d\<lparr>redis := Some (r1\<lparr>acked := acked r1 @ [mid]\<rparr>)\<rparr>))))"

text \<open>
  \<open>dispatchTask\<close>: the three blocks in sequence. The result is \<open>Inl\<close> when the call itself
  rejects, which only the fallback scheduler's out-of-range read can cause.
\<close>

definition dispatchTask ::
  "env \<Rightarrow> Task \<Rightarrow> string option \<Rightarrow> Dispatcher \<Rightarrow> (thrown + DispatchResult) \<times> Dispatcher" where
  "dispatchTask e task messageId d =
     (case dispatchTask_fallback e task (dispatchTask_predict e task d) of
        (Inl err, d2) \<Rightarrow> (Inl err, d2)
      | (Inr None, d2) \<Rightarrow>
          (Inr \<lparr>dr_success = False,
                dr_decision = \<lparr>taskId = task_id task, workerId = [], timestamp = env_now e,
                               usedFallback = True, prediction = None,
                               reason = Fallback_round_robin\<rparr>,
                dr_error = Some ''No workers available''\<rparr>, d2)
      | (Inr (Some dec), d2) \<Rightarrow>
          (case dispatchTask_publish e task messageId dec d2 of
             (res, d3) \<Rightarrow> (Inr res, d3)))"

text \<open>
  \<open>parseTask\<close> reads the flat field list of a stream entry. The built-ins it calls are
  parameters: \<^verbatim>\<open>JSON.parse\<close> (\<open>None\<close> when it throws a SyntaxError), \<^verbatim>\<open>parseInt(_, 10)\<close>,
  the \<^verbatim>\<open>Date\<close> constructor on a string, and the unchecked cast of the parsed metadata.
\<close>

record builtins =
  JSON_parse :: "string \<Rightarrow> json option"
  parseInt10 :: "string \<Rightarrow> real"
  Date_of_string :: "string \<Rightarrow> int"
  as_TaskMetadata :: "json \<Rightarrow> TaskMetadata"

text \<open>
  \<^verbatim>\<open>for (i = 0; i < fields.length; i += 2) data[fields[i]] = fields[i + 1]\<close>:
  a later pair overrides an earlier one, and a trailing key gets \<^verbatim>\<open>undefined\<close>.
\<close>

fun field_pairs :: "string list \<Rightarrow> (string \<times> string option) list" where
  "field_pairs (k # v # rest) = (k, Some v) # field_pairs rest"
| "field_pairs [k] = [(k, None)]"
| "field_pairs [] = []"

text \<open>\<^verbatim>\<open>data[key]\<close> when it is truthy (present, defined and non-empty).\<close>

definition field_value :: "string list \<Rightarrow> string \<Rightarrow> string option" where
  "field_value flds key =
     (case map_of (rev (field_pairs flds)) key of
        Some (Some v) \<Rightarrow> (if v = [] then None else Some v)
      | _ \<Rightarrow> None)"

definition or_else :: "string option \<Rightarrow> string \<Rightarrow> string" where
  "or_else v dflt = (case v of Some s \<Rightarrow> s | None \<Rightarrow> dflt)"

definition parseTask ::
  "builtins \<Rightarrow> int \<Rightarrow> string \<Rightarrow> string list \<Rightarrow> Dispatcher \<Rightarrow> Task option \<times> Dispatcher" where
  "parseTask b now messageId flds d =
     (let failed = (None, d\<lparr>console := console d @
                      [Console_error ''Failed to parse task:'' (Error ''SyntaxError'')]\<rparr>)
      in case JSON_parse b (or_else (field_value flds ''payload'') ''{}'') of
           None \<Rightarrow> failed
         | Some pl \<Rightarrow>
             (case (case field_value flds ''metadata'' of
                      None \<Rightarrow> Some None
                    | Some m \<Rightarrow> map_option (\<lambda>j. Some (as_TaskMetadata b j)) (JSON_parse b m)) of
                None \<Rightarrow> failed
              | Some md \<Rightarrow>
                  (Some \<lparr>task_id = or_else (field_value flds ''id'') messageId,
                         task_type = or_else (field_value flds ''type'') ''unknown'',
                         payload = pl,
                         priority = parseInt10 b (or_else (field_value flds ''priority'') ''0''),
                         createdAt = (case field_value flds ''createdAt'' of
                                        Some c \<Rightarrow> Date_of_string b c | None \<Rightarrow> now),
                         metadata = md\<rparr>, d)))"

text \<open>
  The body of \<open>consumeLoop\<close>'s inner loop for one stream entry \<open>(messageId, fields)\<close>:
  parse, and dispatch only if a task came out.
\<close>

definition consume_entry ::
  "builtins \<Rightarrow> env \<Rightarrow> string \<times> string list \<Rightarrow> Dispatcher \<Rightarrow> thrown option \<times> Dispatcher" where
  "consume_entry b e entry d =
     (case parseTask b (env_now e) (fst entry) (snd entry) d of
        (None, d1) \<Rightarrow> (None, d1)
      | (Some task, d1) \<Rightarrow>
          (case dispatchTask e task (Some (fst entry)) d1 of
             (Inl err, d2) \<Rightarrow> (Some err, d2)
           | (Inr res, d2) \<Rightarrow> (None, d2)))"

text \<open>
  One iteration of \<open>consumeLoop\<close> on the entries that \<^verbatim>\<open>xreadgroup\<close> returned, each with
  the outside's behaviour while it is handled. An exception leaves the batch and is
  logged by the loop's \<^verbatim>\<open>catch\<close>.
\<close>

fun consume_entries ::
  "builtins \<Rightarrow> (env \<times> string \<times> string list) list \<Rightarrow> Dispatcher \<Rightarrow> Dispatcher" where
  "consume_entries b [] d = d"
| "consume_entries b ((e, entry) # rest) d =
     (case consume_entry b e entry d of
        (Some err, d1) \<Rightarrow> d1\<lparr>console := console d1 @ [Console_error ''Error in consume loop:'' err]\<rparr>
      | (None, d1) \<Rightarrow> consume_entries b rest d1)"

section \<open>Test fixtures (registry/worker-registry.test.ts, dispatcher/dispatcher.test.ts)\<close>

definition createWorker :: "int \<Rightarrow> string \<Rightarrow> WorkerState" where
  "createWorker now wid =
     \<lparr>worker_id = wid, status = idle, capabilities = [''default''], currentLoad = 0,
      lastHeartbeat = now, activeTasks = 0, maxConcurrency = 10, worker_metadata = None\<rparr>"

definition createTask :: "int \<Rightarrow> string \<Rightarrow> Task" where
  "createTask now tid =
     \<lparr>task_id = tid, task_type = ''test'', payload = JObj [], priority = 0,
      createdAt = now, metadata = None\<rparr>"

definition new_WorkerRegistry :: "int \<Rightarrow> WorkerRegistry" where
  "new_WorkerRegistry timeoutMs = \<lparr>workers = [], heartbeatTimeoutMs = timeoutMs\<rparr>"

text \<open>
  A stand-in for the built-ins in examples: its \<^verbatim>\<open>JSON.parse\<close> accepts the text \<^verbatim>\<open>{}\<close>
  and rejects everything else, as the real one rejects \<^verbatim>\<open>{\<close>.
\<close>

definition test_builtins :: builtins where
  "test_builtins =
     \<lparr>JSON_parse = (\<lambda>s. if s = ''{}'' then Some (JObj []) else None),
      parseInt10 = (\<lambda>s. 0),
      Date_of_string = (\<lambda>s. 0),
      as_TaskMetadata = (\<lambda>j. \<lparr>md_estimatedDurationMs = None, requiredCapabilities = None,
                                maxRetries = None, timeout = None\<rparr>)\<rparr>"

text \<open>
  A connected dispatcher with threshold 3 over a registry that holds the idle worker
  \<open>w1\<close>, and an outside in which the predictor recommends a given worker id and nothing
  throws.
\<close>

definition test_dispatcher :: Dispatcher where
  "test_dispatcher =
     connect (new_Dispatcher (register 0 (createWorker 0 ''w1'') (new_WorkerRegistry 30000)) 3)"

definition test_env :: "string \<Rightarrow> env" where
  "test_env wid =
     \<lparr>env_now = 1000,
      predictor = (\<lambda>t. Inr (Some \<lparr>pred_taskId = task_id t, recommendedWorkerId = wid,
                                   confidence = Finite (9 / 10), estimatedDurationMs = 1000,
                                   alternativeWorkers = None\<rparr>)),
      publish_throws = None, xack_throws = None\<rparr>"

section \<open>Properties of the heuristic predictor\<close>

lemma calculateConfidence_finite:
  "threshold \<noteq> 0 \<Longrightarrow>
   calculateConfidence n threshold = Finite (min 1 (real_of_int n / threshold))"
  by (simp add: calculateConfidence_def js_divide_def)

text \<open>
  C4, as the claim words it, fails in two places: feedback with the empty task type is
  ignored, so a type without prior state gets no state at all; and a stored state that
  has seen no sample (as a restored snapshot may hold) takes the first-sample branch, so
  its \<open>ema\<close> becomes the sample, not the blend \<open>0.3 \<cdot> 1000 + 0.7 \<cdot> 5000 = 3800\<close>.
\<close>

theorem feedback_ema_law_counterexample:
  "feedback DEFAULT_PREDICTOR_CONFIG 7 1000 (Some []) Map.empty [] = None \<and>
   map_option ema
     (feedback DEFAULT_PREDICTOR_CONFIG 7 1000 (Some ''build'')
        [''build'' \<mapsto> \<lparr>taskType = ''build'', ema = 5000, sampleCount = 0, lastUpdated = 0\<rparr>]
        ''build'') = Some 1000 \<and>
   alpha DEFAULT_PREDICTOR_CONFIG * 1000 + (1 - alpha DEFAULT_PREDICTOR_CONFIG) * 5000
     = (3800 :: real)"
  by (simp add: feedback_def updateEMAState_def DEFAULT_PREDICTOR_CONFIG_def)

text \<open>
  C4, as the code has it: feedback without a task type, or with the empty one, changes
  nothing. With a non-empty type, a type that has no stored state, or whose stored state
  has seen no sample yet, gets \<open>ema = actual\<close>; any other stored state is blended,
  \<open>ema = \<alpha> \<cdot> actual + (1 - \<alpha>) \<cdot> previous ema\<close>. In both cases the sample count goes up
  by exactly one (to 1 for a new type).
\<close>

theorem feedback_ema_law:
  fixes cfg :: HeuristicPredictorConfig
  shows
  "feedback cfg now actual None preds = preds \<and>
   feedback cfg now actual (Some []) preds = preds \<and>
   (t \<noteq> [] \<longrightarrow>
      (preds t = None \<longrightarrow>
         (\<exists>s'. feedback cfg now actual (Some t) preds t = Some s' \<and>
               ema s' = actual \<and> sampleCount s' = 1)) \<and>
      (\<forall>s. preds t = Some s \<longrightarrow>
         (\<exists>s'. feedback cfg now actual (Some t) preds t = Some s' \<and>
               sampleCount s' = sampleCount s + 1 \<and>
               ema s' = (if sampleCount s = 0 then actual
                         else alpha cfg * actual + (1 - alpha cfg) * ema s))))"
  by (simp add: feedback_def updateEMAState_def initializeEMA_def updateEMA_def Let_def)

theorem feedback_ema_law_witness:
  "(''build'' \<noteq> [] \<and> (Map.empty :: predictions) ''build'' = None \<and>
    (\<exists>s'. feedback DEFAULT_PREDICTOR_CONFIG 7 1000 (Some ''build'') Map.empty ''build'' = Some s' \<and>
          ema s' = 1000 \<and> sampleCount s' = 1)) \<and>
   (\<exists>s'. feedback DEFAULT_PREDICTOR_CONFIG 7 1000 (Some ''build'')
            [''build'' \<mapsto> \<lparr>taskType = ''build'', ema = 5000, sampleCount = 4, lastUpdated = 0\<rparr>]
            ''build'' = Some s' \<and>
          sampleCount s' = 5 \<and> ema s' = 3800)"
  using
    feedback_ema_law [where t = "''build''" and preds = Map.empty
      and cfg = DEFAULT_PREDICTOR_CONFIG and now = 7 and actual = 1000]
    feedback_ema_law [where t = "''build''"
      and preds = "[''build'' \<mapsto> \<lparr>taskType = ''build'', ema = 5000, sampleCount = 4, lastUpdated = 0\<rparr>]"
      and cfg = DEFAULT_PREDICTOR_CONFIG and now = 7 and actual = 1000]
  by (simp add: DEFAULT_PREDICTOR_CONFIG_def)

text \<open>
  C5: for a task whose type has recorded state, \<open>predict\<close> returns the stored \<open>ema\<close> as the
  estimate and \<open>min(1, sampleCount / confidenceThreshold)\<close> as the confidence (the
  JavaScript expression; for a non-zero threshold it is the real-number minimum); for an
  unknown type it returns the configured default duration, which is 5000 ms in the default
  configuration, with confidence 0.
\<close>

theorem predict_contract:
  fixes cfg :: HeuristicPredictorConfig
  shows
  "(\<forall>s. preds (task_type task) = Some s \<longrightarrow>
        estimatedDurationMs (predict cfg preds task) = ema s \<and>
        confidence (predict cfg preds task) =
          Math_min 1 (js_divide (real_of_int (sampleCount s)) (confidenceThreshold cfg)) \<and>
        (confidenceThreshold cfg \<noteq> 0 \<longrightarrow>
           confidence (predict cfg preds task) =
             Finite (min 1 (real_of_int (sampleCount s) / confidenceThreshold cfg)))) \<and>
   (preds (task_type task) = None \<longrightarrow>
        estimatedDurationMs (predict cfg preds task) = defaultDurationMs cfg \<and>
        confidence (predict cfg preds task) = Finite 0) \<and>
   defaultDurationMs DEFAULT_PREDICTOR_CONFIG = 5000"
  by (simp add: predict_def calculateConfidence_def js_divide_def DEFAULT_PREDICTOR_CONFIG_def)

theorem predict_contract_witness:
  "[''build'' \<mapsto> \<lparr>taskType = ''build'', ema = 1200, sampleCount = 10, lastUpdated = 0\<rparr>]
     ''build'' = Some \<lparr>taskType = ''build'', ema = 1200, sampleCount = 10, lastUpdated = 0\<rparr> \<and>
   estimatedDurationMs
     (predict DEFAULT_PREDICTOR_CONFIG
        [''build'' \<mapsto> \<lparr>taskType = ''build'', ema = 1200, sampleCount = 10, lastUpdated = 0\<rparr>]
        \<lparr>task_id = ''t1'', task_type = ''build'', payload = JObj [], priority = 1,
         createdAt = 0, metadata = None\<rparr>) = 1200 \<and>
   confidence
     (predict DEFAULT_PREDICTOR_CONFIG
        [''build'' \<mapsto> \<lparr>taskType = ''build'', ema = 1200, sampleCount = 10, lastUpdated = 0\<rparr>]
        \<lparr>task_id = ''t1'', task_type = ''build'', payload = JObj [], priority = 1,
         createdAt = 0, metadata = None\<rparr>) = Finite (1 / 10) \<and>
   (Map.empty :: predictions) ''deploy'' = None \<and>
   estimatedDurationMs
     (predict DEFAULT_PREDICTOR_CONFIG Map.empty
        \<lparr>task_id = ''t2'', task_type = ''deploy'', payload = JObj [], priority = 1,
         createdAt = 0, metadata = None\<rparr>) = 5000 \<and>
   confidence
     (predict DEFAULT_PREDICTOR_CONFIG Map.empty
        \<lparr>task_id = ''t2'', task_type = ''deploy'', payload = JObj [], priority = 1,
         createdAt = 0, metadata = None\<rparr>) = Finite 0"
  using
    predict_contract [where cfg = DEFAULT_PREDICTOR_CONFIG
      and preds = "[''build'' \<mapsto> \<lparr>taskType = ''build'', ema = 1200, sampleCount = 10, lastUpdated = 0\<rparr>]"
      and task = "\<lparr>task_id = ''t1'', task_type = ''build'', payload = JObj [], priority = 1,
                    createdAt = 0, metadata = None\<rparr>"]
    predict_contract [where cfg = DEFAULT_PREDICTOR_CONFIG and preds = Map.empty
      and task = "\<lparr>task_id = ''t2'', task_type = ''deploy'', payload = JObj [], priority = 1,
                    createdAt = 0, metadata = None\<rparr>"]
  by (simp add: DEFAULT_PREDICTOR_CONFIG_def js_divide_def)

section \<open>Properties of drift detection\<close>

lemma detectDrift_flag:
  "0 < predicted \<Longrightarrow>
   isDrift (detectDrift predicted actual DEFAULT_DRIFT_CONFIG) =
     (actual / predicted < 1 / 2 \<or> actual / predicted > 2)"
  by (simp add: detectDrift_def DEFAULT_DRIFT_CONFIG_def Let_def)

lemma detectDrift_severity:
  "0 < predicted \<Longrightarrow>
   severity (detectDrift predicted actual config) =
     (if isDrift (detectDrift predicted actual config)
      then (if actual / predicted < 33 / 100 \<or> actual / predicted > 3
            then Sev_major else Sev_minor)
      else Sev_none)"
  by (simp add: detectDrift_def Let_def)

text \<open>
  C8 at a completion with predicted 1000 ms and actual 331 ms: the ratio 0.331 is below
  1/3, a deviation of more than 3\<times>, yet the drift event that the subscriber emits carries
  severity minor, because the detector compares the ratio with 0.33.
\<close>

theorem processCompletion_drift_at_331:
  "emitted
     (processCompletion DEFAULT_COMPLETION_CONFIG 0
        \<lparr>c_taskId = ''t1'', c_taskType = ''build'', c_workerId = ''w1'', startedAt = 0,
         completedAt = 331, durationMs = 331, success = True,
         predictedDurationMs = Some 1000\<rparr>
        \<lparr>isRunning = True, completionCount = 0, samples = [], sub_predictor = None,
         emitted = []\<rparr>)
     = [drift_detected ''build''
          \<lparr>isDrift = True, ratio = Finite (331 / 1000), severity = Sev_minor,
           message = Overprediction 331 1000 (331 / 1000)\<rparr>] \<and>
   (331 / 1000 :: real) < 1 / 3"
  by (simp add: processCompletion_def detectDrift_def DEFAULT_COMPLETION_CONFIG_def
      DEFAULT_DRIFT_CONFIG_def Let_def signed_modulo_int_def)

text \<open>
  C10: \<open>detectDrift\<close> is a total function, and for every non-positive prediction it takes
  the guard's branch, which divides nothing: whatever the actual value and the
  thresholds, the result is drift, ratio \<open>Infinity\<close>, severity major.
\<close>

theorem detectDrift_nonpositive:
  "predicted \<le> 0 \<Longrightarrow>
   detectDrift predicted actual config =
     \<lparr>isDrift = True, ratio = Infinity, severity = Sev_major, message = Invalid_prediction\<rparr>"
  by (simp add: detectDrift_def)

theorem detectDrift_nonpositive_witness:
  "(0 :: real) \<le> 0 \<and> (- 100 :: real) \<le> 0 \<and>
   detectDrift 0 1000 DEFAULT_DRIFT_CONFIG =
     \<lparr>isDrift = True, ratio = Infinity, severity = Sev_major, message = Invalid_prediction\<rparr> \<and>
   detectDrift (- 100) 1000 DEFAULT_DRIFT_CONFIG =
     \<lparr>isDrift = True, ratio = Infinity, severity = Sev_major, message = Invalid_prediction\<rparr>"
  using detectDrift_nonpositive [of 0 1000 DEFAULT_DRIFT_CONFIG]
    detectDrift_nonpositive [of "- 100" 1000 DEFAULT_DRIFT_CONFIG]
  by simp

section \<open>Properties of the worker registry\<close>

lemma set_map_set: "set (map_set k v kvs) \<subseteq> insert (k, v) (set kvs)"
  by (induction kvs) (auto split: if_splits)

lemma list_all_map_set:
  "P (k, v) \<Longrightarrow> list_all P kvs \<Longrightarrow> list_all P (map_set k v kvs)"
  using set_map_set [of k v kvs] by (auto simp: list_all_iff)

lemma loads_in_range_get:
  "loads_in_range reg \<Longrightarrow> registry_get reg k = Some w \<Longrightarrow> 0 \<le> currentLoad w \<and> currentLoad w \<le> 1"
  unfolding loads_in_range_def registry_get_def list_all_iff
  by (auto dest!: map_of_SomeD)

lemma loads_in_range_map_set:
  "loads_in_range reg \<Longrightarrow> 0 \<le> currentLoad w \<Longrightarrow> currentLoad w \<le> 1 \<Longrightarrow>
   loads_in_range (reg\<lparr>workers := map_set k w (workers reg)\<rparr>)"
  unfolding loads_in_range_def
  by (simp add: list_all_map_set)

lemma loads_in_range_register:
  "loads_in_range reg \<Longrightarrow> 0 \<le> currentLoad w \<Longrightarrow> currentLoad w \<le> 1 \<Longrightarrow>
   loads_in_range (register now w reg)"
  unfolding register_def by (rule loads_in_range_map_set) simp_all

lemma loads_in_range_updateLoad:
  "loads_in_range reg \<Longrightarrow> loads_in_range (snd (updateLoad k load n reg))"
proof (cases "registry_get reg k")
  case None
  then show "loads_in_range reg \<Longrightarrow> ?thesis" by (simp add: updateLoad_def)
next
  case (Some w)
  assume "loads_in_range reg"
  then have "loads_in_range
    (reg\<lparr>workers := map_set k (w\<lparr>currentLoad := max 0 (min 1 load), activeTasks := n\<rparr>) (workers reg)\<rparr>)"
    by (rule loads_in_range_map_set) simp_all
  with Some show ?thesis by (simp add: updateLoad_def)
qed

lemma loads_in_range_heartbeat:
  "loads_in_range reg \<Longrightarrow> loads_in_range (snd (heartbeat now k reg))"
proof (cases "registry_get reg k")
  case None
  then show "loads_in_range reg \<Longrightarrow> ?thesis" by (simp add: heartbeat_def)
next
  case (Some w)
  assume inv: "loads_in_range reg"
  from loads_in_range_get [OF inv Some] inv
  have "loads_in_range (reg\<lparr>workers := map_set k (w\<lparr>lastHeartbeat := now\<rparr>) (workers reg)\<rparr>)"
    by (intro loads_in_range_map_set) simp_all
  with Some show ?thesis by (simp add: heartbeat_def)
qed

lemma loads_in_range_updateStatus:
  "loads_in_range reg \<Longrightarrow> loads_in_range (snd (updateStatus k st reg))"
proof (cases "registry_get reg k")
  case None
  then show "loads_in_range reg \<Longrightarrow> ?thesis" by (simp add: updateStatus_def)
next
  case (Some w)
  assume inv: "loads_in_range reg"
  from loads_in_range_get [OF inv Some] inv
  have "loads_in_range (reg\<lparr>workers := map_set k (w\<lparr>status := st\<rparr>) (workers reg)\<rparr>)"
    by (intro loads_in_range_map_set) simp_all
  with Some show ?thesis by (simp add: updateStatus_def)
qed

lemma loads_in_range_pruneStale:
  "loads_in_range reg \<Longrightarrow> loads_in_range (snd (pruneStale now reg))"
  by (auto simp: pruneStale_def loads_in_range_def list_all_iff)

lemma registry_ops_preserve_loads:
  assumes "loads_in_range reg"
  shows "(0 \<le> currentLoad w \<and> currentLoad w \<le> 1 \<longrightarrow> loads_in_range (register now w reg)) \<and>
         loads_in_range (snd (updateLoad k load n reg)) \<and>
         loads_in_range (snd (heartbeat now k reg)) \<and>
         loads_in_range (snd (updateStatus k st reg)) \<and>
         loads_in_range (snd (pruneStale now reg))"
  using assms loads_in_range_register loads_in_range_updateLoad loads_in_range_heartbeat
    loads_in_range_updateStatus loads_in_range_pruneStale
  by blast

lemma updateLoad_clamps:
  assumes "registry_get reg k = Some worker"
  shows "updateLoad k load n reg =
           (True, reg\<lparr>workers := map_set k
                     (worker\<lparr>currentLoad := max 0 (min 1 load), activeTasks := n\<rparr>)
                     (workers reg)\<rparr>) \<and>
         0 \<le> max 0 (min 1 load) \<and> max 0 (min 1 load) \<le> 1"
  using assms by (simp add: updateLoad_def)

text \<open>
  C7 at \<open>register\<close> of a worker state that carries load 1.5, into an empty registry: the
  state is stored with that load, so the registry holds a load outside [0,1]. The same
  load written through \<open>updateLoad\<close> is clamped to 1.
\<close>

theorem register_load_unclamped:
  "map (\<lambda>kv. currentLoad (snd kv))
     (workers (register 0 ((createWorker 0 ''w1'')\<lparr>currentLoad := 3 / 2\<rparr>)
                 (new_WorkerRegistry 30000))) = [3 / 2] \<and>
   \<not> loads_in_range
       (register 0 ((createWorker 0 ''w1'')\<lparr>currentLoad := 3 / 2\<rparr>)
          (new_WorkerRegistry 30000)) \<and>
   map (\<lambda>kv. currentLoad (snd kv))
     (workers (snd (updateLoad ''w1'' (3 / 2) 0
                      (register 0 (createWorker 0 ''w1'') (new_WorkerRegistry 30000))))) = [1]"
  by (simp add: loads_in_range_def register_def updateLoad_def registry_get_def
      createWorker_def new_WorkerRegistry_def)

text \<open>
  A registry built by \<open>register\<close> from the empty one keeps its keys distinct and equal to
  the ids of the states, so the workers it reports as available have distinct ids.
\<close>

lemma map_fst_map_set:
  "map fst (map_set k v kvs) = (if k \<in> fst ` set kvs then map fst kvs else map fst kvs @ [k])"
  by (induction kvs) (force split: if_splits)+

lemma registry_wf_new: "registry_wf (new_WorkerRegistry t)"
  by (simp add: registry_wf_def new_WorkerRegistry_def)

lemma registry_wf_map_set:
  assumes "registry_wf reg" and "worker_id w = k"
  shows "registry_wf (reg\<lparr>workers := map_set k w (workers reg)\<rparr>)"
proof -
  have "distinct (map fst (map_set k w (workers reg)))"
    using assms(1) by (auto simp: registry_wf_def map_fst_map_set)
  moreover have "list_all (\<lambda>kv. worker_id (snd kv) = fst kv) (map_set k w (workers reg))"
    using assms by (intro list_all_map_set) (simp_all add: registry_wf_def)
  ultimately show ?thesis by (simp add: registry_wf_def)
qed

lemma registry_wf_register: "registry_wf reg \<Longrightarrow> registry_wf (register now w reg)"
  unfolding register_def by (rule registry_wf_map_set) simp_all

lemma getAvailable_distinct:
  assumes "registry_wf reg"
  shows "distinct (map worker_id (getAvailable now required reg))"
proof -
  have ids: "map worker_id (map snd (workers reg)) = map fst (workers reg)"
    using assms by (auto simp: registry_wf_def list_all_iff)
  have "distinct (map worker_id (map snd (workers reg)))"
    unfolding ids using assms by (simp add: registry_wf_def)
  then show ?thesis
    unfolding getAvailable_def by (rule distinct_map_filter)
qed

section \<open>Properties of the round-robin scheduler\<close>

lemma rr_hit_iff:
  fixes K i s N :: nat
  assumes "i < K" "s < K"
  shows "((s + N) mod K = i) = (N mod K = (i + K - s) mod K)"
proof -
  define r where "r = N mod K"
  have rK: "r < K" using assms by (simp add: r_def)
  have a: "(s + N) mod K = (if s + r < K then s + r else s + r - K)"
  proof -
    have "(s + N) mod K = (s + r) mod K"
      by (simp add: r_def mod_add_right_eq)
    also have "\<dots> = (if s + r < K then s + r else s + r - K)"
      using rK assms by (simp add: mod_if)
    finally show ?thesis .
  qed
  have b: "(i + K - s) mod K = (if s \<le> i then i - s else i + K - s)"
    using assms by (auto simp: mod_if)
  show ?thesis
    unfolding a b r_def [symmetric] using rK assms by auto
qed

lemma rr_count:
  fixes K i s :: nat
  assumes "0 < K" "i < K" "s < K"
  shows "length (filter (\<lambda>j. (s + j) mod K = i) [0..<N])
         = N div K + (if (i + K - s) mod K < N mod K then 1 else 0)"
proof (induction N)
  case 0
  then show ?case by simp
next
  case (Suc N)
  let ?d = "(i + K - s) mod K"
  have hit: "((s + N) mod K = i) = (N mod K = ?d)"
    using rr_hit_iff assms by blast
  have dK: "?d < K" using assms by simp
  show ?case
  proof (cases "Suc (N mod K) = K")
    case True
    then have "Suc N mod K = 0" "Suc N div K = Suc (N div K)"
      by (simp_all add: mod_Suc div_Suc)
    moreover note True
    moreover have "?d \<le> N mod K" using dK True by linarith
    ultimately show ?thesis using Suc hit by auto
  next
    case False
    then have "Suc N mod K = Suc (N mod K)" "Suc N div K = N div K"
      by (simp_all add: mod_Suc div_Suc)
    with Suc hit dK False show ?thesis by auto
  qed
qed

lemma smod_nonneg: "0 \<le> a \<Longrightarrow> 0 < b \<Longrightarrow> a smod b = a mod (b :: int)"
  by (simp add: signed_modulo_int_def sgn_if)

lemma schedule_fixed:
  assumes "getAvailable now (task_requiredCapabilities task) reg = avail"
    and "avail \<noteq> []" and "- 1 \<le> cursor"
  shows "schedule reg now task rsn cursor =
           (Inr (Some \<lparr>taskId = task_id task,
                        workerId = worker_id (avail ! nat ((cursor + 1) mod int (length avail))),
                        timestamp = now, usedFallback = True, prediction = None,
                        reason = rsn\<rparr>),
            (cursor + 1) mod int (length avail))"
proof -
  have K: "0 < int (length avail)" using assms(2) by simp
  have "(cursor + 1) smod int (length avail) = (cursor + 1) mod int (length avail)"
    using assms(3) K by (intro smod_nonneg) simp_all
  moreover have "0 \<le> (cursor + 1) mod int (length avail)"
    "(cursor + 1) mod int (length avail) < int (length avail)"
    using K by simp_all
  ultimately show ?thesis
    using assms(1,2) by (simp add: schedule_def Let_def)
qed

lemma schedule_calls_fixed:
  assumes "\<forall>c\<in>set calls. getAvailable (fst c) (task_requiredCapabilities (fst (snd c))) reg = avail"
    and "avail \<noteq> []" and "- 1 \<le> cursor"
  shows "map pick (fst (schedule_calls reg calls cursor)) =
         map (\<lambda>j. Some (worker_id
                (avail ! ((nat ((cursor + 1) mod int (length avail)) + j) mod length avail))))
           [0..<length calls]"
  using assms
proof (induction calls arbitrary: cursor)
  case Nil
  then show ?case by simp
next
  case (Cons c calls)
  obtain now task rsn where c: "c = (now, task, rsn)" by (cases c) auto
  let ?K = "length avail"
  let ?c' = "(cursor + 1) mod int ?K"
  have K: "0 < ?K" using Cons.prems(2) by simp
  have av: "getAvailable now (task_requiredCapabilities task) reg = avail"
    using Cons.prems(1) c by simp
  have step: "schedule reg now task rsn cursor =
           (Inr (Some \<lparr>taskId = task_id task,
                        workerId = worker_id (avail ! nat ?c'),
                        timestamp = now, usedFallback = True, prediction = None,
                        reason = rsn\<rparr>), ?c')"
    using schedule_fixed [OF av Cons.prems(2) Cons.prems(3)] .
  have c'0: "0 \<le> ?c'" using K by simp
  then have c'1: "- 1 \<le> ?c'" by linarith
  have IH: "map pick (fst (schedule_calls reg calls ?c')) =
         map (\<lambda>j. Some (worker_id
                (avail ! ((nat ((?c' + 1) mod int ?K) + j) mod ?K))))
           [0..<length calls]"
    using Cons.IH [of ?c'] Cons.prems(1,2) c'1 by simp
  have shift: "(nat ((?c' + 1) mod int ?K) + j) mod ?K = (nat ?c' + Suc j) mod ?K" for j
  proof -
    have "nat ((?c' + 1) mod int ?K) = (nat ?c' + 1) mod ?K"
      using c'0 by (simp add: nat_mod_distrib nat_add_distrib)
    then show ?thesis by (simp add: mod_add_left_eq)
  qed
  have unfold: "map pick (fst (schedule_calls reg (c # calls) cursor)) =
        pick (fst (schedule reg now task rsn cursor)) #
        map pick (fst (schedule_calls reg calls (snd (schedule reg now task rsn cursor))))"
    by (simp add: c case_prod_beta Let_def)
  have main: "map pick (fst (schedule_calls reg (c # calls) cursor)) =
        Some (worker_id (avail ! nat ?c')) #
        map (\<lambda>j. Some (worker_id (avail ! ((nat ?c' + Suc j) mod ?K)))) [0..<length calls]"
    unfolding unfold step using IH by (simp add: pick_def shift)
  have sK: "nat ?c' mod ?K = nat ?c'"
    using c'0 K by (simp add: nat_less_iff)
  show ?case
    unfolding main by (simp add: map_upt_Suc sK del: upt_Suc)
qed

lemma floor_div_nat:
  fixes N K :: nat
  shows "nat \<lfloor>real N / real K\<rfloor> = N div K"
  by (simp add: floor_divide_of_nat_eq)

lemma ceil_div_nat:
  fixes N K :: nat
  assumes "0 < K" "N mod K \<noteq> 0"
  shows "nat \<lceil>real N / real K\<rceil> = N div K + 1"
proof -
  have eq: "real N = real K * real (N div K) + real (N mod K)"
    by (metis of_nat_add of_nat_mult mult_div_mod_eq)
  have pos: "0 < real (N mod K)" using assms by simp
  have lt: "real (N mod K) < real K" using assms by simp
  have "\<lceil>real N / real K\<rceil> = int (N div K) + 1"
  proof (rule ceiling_unique)
    show "of_int (int (N div K) + 1) - 1 < real N / real K"
      using assms pos eq by (simp add: field_simps)
    show "real N / real K \<le> of_int (int (N div K) + 1)"
      using assms lt eq by (simp add: field_simps)
  qed
  then show ?thesis by simp
qed


lemma dispatches_to_pick:
  "dispatches_to wid results = length (filter (\<lambda>p. p = Some wid) (map pick results))"
proof -
  have "(case r of Inr (Some d) \<Rightarrow> workerId d = wid | _ \<Rightarrow> False) = (pick r = Some wid)" for r
    by (auto simp: pick_def split: sum.splits option.splits)
  then show ?thesis
    by (simp add: dispatches_to_def filter_map comp_def)
qed

lemma schedule_cursor_invariant:
  assumes "- 1 \<le> cursor"
  shows "- 1 \<le> snd (schedule reg now task rsn cursor)"
proof (cases "getAvailable now (task_requiredCapabilities task) reg = []")
  case True
  then show ?thesis using assms by (simp add: schedule_def)
next
  case False
  from schedule_fixed [OF refl False assms, of rsn]
  have "snd (schedule reg now task rsn cursor) =
        (cursor + 1) mod int (length (getAvailable now (task_requiredCapabilities task) reg))"
    by simp
  moreover have "0 \<le> (cursor + 1) mod int (length (getAvailable now (task_requiredCapabilities task) reg))"
    using False by simp
  ultimately show ?thesis by linarith
qed

lemma dispatches_to_count:
  assumes fixed: "\<forall>c\<in>set calls.
            getAvailable (fst c) (task_requiredCapabilities (fst (snd c))) reg = avail"
    and ne: "avail \<noteq> []"
    and dist: "distinct (map worker_id avail)"
    and i: "i < length avail"
    and cur: "- 1 \<le> cursor"
  shows "dispatches_to (worker_id (avail ! i)) (fst (schedule_calls reg calls cursor)) =
         length calls div length avail +
         (if (i + length avail - nat ((cursor + 1) mod int (length avail))) mod length avail
              < length calls mod length avail then 1 else 0)"
proof -
  let ?K = "length avail"
  let ?s = "nat ((cursor + 1) mod int ?K)"
  have K: "0 < ?K" using ne by simp
  have sK: "?s < ?K" using K by (simp add: nat_less_iff)
  have same: "(worker_id (avail ! ((?s + j) mod ?K)) = worker_id (avail ! i)) = ((?s + j) mod ?K = i)"
    for j
  proof -
    have m: "(?s + j) mod ?K < ?K" using K by simp
    have "(map worker_id avail ! ((?s + j) mod ?K) = map worker_id avail ! i)
          = ((?s + j) mod ?K = i)"
      using nth_eq_iff_index_eq [OF dist, of "(?s + j) mod ?K" i] m i
      by (simp only: length_map)
    then show ?thesis using m i by (simp only: nth_map)
  qed
  have "dispatches_to (worker_id (avail ! i)) (fst (schedule_calls reg calls cursor)) =
        length (filter (\<lambda>j. (?s + j) mod ?K = i) [0..<length calls])"
    unfolding dispatches_to_pick schedule_calls_fixed [OF fixed ne cur]
    by (simp add: filter_map comp_def same)
  also have "\<dots> = length calls div ?K +
         (if (i + ?K - ?s) mod ?K < length calls mod ?K then 1 else 0)"
    using rr_count [OF K i sK] .
  finally show ?thesis .
qed

text \<open>
  C9: let the list of eligible workers be the same non-empty list of \<open>K\<close> workers at each
  of \<open>N\<close> consecutive calls of the round-robin scheduler (worker ids are distinct, as
  \<open>getAvailable_distinct\<close> shows for a well-formed registry, and the cursor is at least
  \<open>-1\<close>, its initial value, which every call preserves by \<open>schedule_cursor_invariant\<close>). Then each eligible worker receives \<open>\<lfloor>N/K\<rfloor>\<close> or \<open>\<lceil>N/K\<rceil>\<close> of the \<open>N\<close>
  dispatches. A call that finds no eligible worker returns no decision and leaves the
  cursor alone.
\<close>

theorem round_robin_fairness:
  assumes fixed: "\<forall>c\<in>set calls.
            getAvailable (fst c) (task_requiredCapabilities (fst (snd c))) reg = avail"
    and ne: "avail \<noteq> []"
    and dist: "distinct (map worker_id avail)"
    and w: "w \<in> set avail"
    and cur: "- 1 \<le> cursor"
  shows "(dispatches_to (worker_id w) (fst (schedule_calls reg calls cursor)) =
            nat \<lfloor>real (length calls) / real (length avail)\<rfloor> \<or>
          dispatches_to (worker_id w) (fst (schedule_calls reg calls cursor)) =
            nat \<lceil>real (length calls) / real (length avail)\<rceil>) \<and>
         (getAvailable now' (task_requiredCapabilities task') reg' = [] \<longrightarrow>
            schedule reg' now' task' rsn' cursor' = (Inr None, cursor'))"
proof
  obtain i where i: "i < length avail" and wi: "avail ! i = w"
    using w by (auto simp: in_set_conv_nth)
  have K: "0 < length avail" using ne by simp
  note cnt = dispatches_to_count [OF fixed ne dist i cur, unfolded wi]
  show "dispatches_to (worker_id w) (fst (schedule_calls reg calls cursor)) =
            nat \<lfloor>real (length calls) / real (length avail)\<rfloor> \<or>
          dispatches_to (worker_id w) (fst (schedule_calls reg calls cursor)) =
            nat \<lceil>real (length calls) / real (length avail)\<rceil>"
  proof (cases "length calls mod length avail = 0")
    case True
    then show ?thesis unfolding cnt floor_div_nat by simp
  next
    case False
    show ?thesis
      unfolding cnt floor_div_nat ceil_div_nat [OF K False] by simp
  qed
  show "getAvailable now' (task_requiredCapabilities task') reg' = [] \<longrightarrow>
            schedule reg' now' task' rsn' cursor' = (Inr None, cursor')"
    by (simp add: schedule_def)
qed

lemma three_workers_available:
  "getAvailable 1000 (task_requiredCapabilities (createTask 1000 tid))
     (register 0 (createWorker 0 ''w3'')
        (register 0 (createWorker 0 ''w2'')
           (register 0 (createWorker 0 ''w1'') (new_WorkerRegistry 30000))))
   = [createWorker 0 ''w1'', createWorker 0 ''w2'', createWorker 0 ''w3'']"
  by (simp add: getAvailable_def register_def createWorker_def createTask_def
      new_WorkerRegistry_def task_requiredCapabilities_def hasCapabilities_def)

theorem round_robin_fairness_witness:
  "(dispatches_to ''w1''
      (fst (schedule_calls
         (register 0 (createWorker 0 ''w3'')
            (register 0 (createWorker 0 ''w2'')
               (register 0 (createWorker 0 ''w1'') (new_WorkerRegistry 30000))))
         [(1000, createTask 1000 ''t1'', Fallback_round_robin),
          (1000, createTask 1000 ''t2'', Fallback_round_robin),
          (1000, createTask 1000 ''t3'', Fallback_round_robin),
          (1000, createTask 1000 ''t4'', Fallback_round_robin)] (- 1))) = nat \<lfloor>(4 :: real) / 3\<rfloor> \<or>
    dispatches_to ''w1''
      (fst (schedule_calls
         (register 0 (createWorker 0 ''w3'')
            (register 0 (createWorker 0 ''w2'')
               (register 0 (createWorker 0 ''w1'') (new_WorkerRegistry 30000))))
         [(1000, createTask 1000 ''t1'', Fallback_round_robin),
          (1000, createTask 1000 ''t2'', Fallback_round_robin),
          (1000, createTask 1000 ''t3'', Fallback_round_robin),
          (1000, createTask 1000 ''t4'', Fallback_round_robin)] (- 1))) = nat \<lceil>(4 :: real) / 3\<rceil>) \<and>
   schedule (new_WorkerRegistry 30000) 1000 (createTask 1000 ''t1'') Fallback_round_robin (- 1)
     = (Inr None, - 1)"
proof -
  let ?reg = "register 0 (createWorker 0 ''w3'')
            (register 0 (createWorker 0 ''w2'')
               (register 0 (createWorker 0 ''w1'') (new_WorkerRegistry 30000)))"
  let ?calls = "[(1000, createTask 1000 ''t1'', Fallback_round_robin),
          (1000, createTask 1000 ''t2'', Fallback_round_robin),
          (1000, createTask 1000 ''t3'', Fallback_round_robin),
          (1000 :: int, createTask 1000 ''t4'', Fallback_round_robin)]"
  let ?avail = "[createWorker 0 ''w1'', createWorker 0 ''w2'', createWorker 0 ''w3'']"
  have h1: "\<forall>c\<in>set ?calls.
      getAvailable (fst c) (task_requiredCapabilities (fst (snd c))) ?reg = ?avail"
    by (simp add: three_workers_available)
  have h2: "?avail \<noteq> []" by simp
  have h3: "distinct (map worker_id ?avail)" by (simp add: createWorker_def)
  have h4: "createWorker 0 ''w1'' \<in> set ?avail" by simp
  have h5: "- 1 \<le> (- 1 :: int)" by simp
  have wid: "worker_id (createWorker 0 ''w1'') = ''w1''" by (simp add: createWorker_def)
  have e: "getAvailable 1000 (task_requiredCapabilities (createTask 1000 ''t1''))
             (new_WorkerRegistry 30000) = []"
    by (simp add: getAvailable_def new_WorkerRegistry_def)
  show ?thesis
    using round_robin_fairness [OF h1 h2 h3 h4 h5, where now' = 1000
        and task' = "createTask 1000 ''t1''" and reg' = "new_WorkerRegistry 30000"
        and rsn' = Fallback_round_robin and cursor' = "- 1"] e
    unfolding wid by (simp del: schedule_calls.simps)
qed

section \<open>Properties of the scorer\<close>

lemma hd_insort_key:
  "hd (insort_key f x ys) = (if ys = [] \<or> f x \<le> f (hd ys) then x else hd ys)"
  by (cases ys) auto

lemma sort_key_hd:
  fixes f :: "'a \<Rightarrow> real"
  shows "xs \<noteq> [] \<Longrightarrow>
   \<exists>ys b zs. xs = ys @ b # zs \<and> (\<forall>y\<in>set ys. f b < f y) \<and> (\<forall>z\<in>set zs. f b \<le> f z) \<and>
     hd (sort_key f xs) = b"
proof (induction xs)
  case Nil
  then show ?case by simp
next
  case (Cons x xs)
  show ?case
  proof (cases "xs = []")
    case True
    then show ?thesis by (intro exI [of _ "[]"] exI [of _ x]) simp
  next
    case False
    from Cons.IH [OF False] obtain ys b zs where
      xs: "xs = ys @ b # zs" and lt: "\<forall>y\<in>set ys. f b < f y" and le: "\<forall>z\<in>set zs. f b \<le> f z"
      and hd: "hd (sort_key f xs) = b" by blast
    have ne: "sort_key f xs \<noteq> []" using False by (metis length_0_conv length_sort)
    show ?thesis
    proof (cases "f x \<le> f b")
      case True
      have "hd (sort_key f (x # xs)) = x"
        using True hd ne by (simp add: hd_insort_key)
      moreover have "\<forall>z\<in>set xs. f x \<le> f z"
        using True xs lt le by fastforce
      ultimately show ?thesis
        by (intro exI [of _ "[]"] exI [of _ x] exI [of _ xs]) simp
    next
      case False
      have "hd (sort_key f (x # xs)) = b"
        using False hd ne by (simp add: hd_insort_key)
      moreover have "\<forall>y\<in>set (x # ys). f b < f y"
        using False lt by auto
      ultimately show ?thesis
        using xs le by (intro exI [of _ "x # ys"] exI [of _ b] exI [of _ zs]) simp
    qed
  qed
qed


lemma scoreWorker_id: "ws_workerId (scoreWorker cfg task pred w) = worker_id w"
  by (simp add: scoreWorker_def Let_def)

text \<open>
  C6 fails as stated: no worker id is ever compared. Two workers with equal scores are
  chosen by their position in the list passed to \<open>score\<close>: given \<open>[w2, w1]\<close> the scorer
  selects \<open>w2\<close>, given \<open>[w1, w2]\<close> it selects \<open>w1\<close>.
\<close>

theorem score_tie_breaking_counterexample:
  "map_option sr_workerId
     (score DEFAULT_SCORER_CONFIG (createTask 0 ''t1'')
        [createWorker 0 ''w2'', createWorker 0 ''w1''] None) = Some ''w2'' \<and>
   map_option sr_workerId
     (score DEFAULT_SCORER_CONFIG (createTask 0 ''t1'')
        [createWorker 0 ''w1'', createWorker 0 ''w2''] None) = Some ''w1'' \<and>
   ws_score (scoreWorker DEFAULT_SCORER_CONFIG (createTask 0 ''t1'') None (createWorker 0 ''w1''))
     = ws_score (scoreWorker DEFAULT_SCORER_CONFIG (createTask 0 ''t1'') None (createWorker 0 ''w2''))"
  by (simp add: score_def scoreWorker_def isWorkerEligible_def createWorker_def createTask_def
      task_requiredCapabilities_def estimateWaitTime_def calculateWaitScore_def
      calculateLoadScore_def calculatePriorityScore_def DEFAULT_SCORER_CONFIG_def
      DEFAULT_SCORING_WEIGHTS_def DEFAULT_MAX_WAIT_MS_def DEFAULT_MAX_PRIORITY_def Let_def)

lemma score_first_maximal:
  assumes "score cfg task ws pred = Some r"
  shows "\<exists>before w after.
           filter (\<lambda>w. isWorkerEligible w (task_requiredCapabilities task)) ws
             = before @ w # after \<and>
           sr_workerId r = worker_id w \<and>
           sr_score r = ws_score (scoreWorker cfg task pred w) \<and>
           (\<forall>v\<in>set before. ws_score (scoreWorker cfg task pred v) < sr_score r) \<and>
           (\<forall>v\<in>set after. ws_score (scoreWorker cfg task pred v) \<le> sr_score r)"
proof -
  let ?el = "filter (\<lambda>w. isWorkerEligible w (task_requiredCapabilities task)) ws"
  let ?g = "scoreWorker cfg task pred"
  let ?f = "\<lambda>s. - ws_score s"
  from assms have ne: "?el \<noteq> []"
    by (auto simp: score_def Let_def split: if_splits)
  then have ne': "map ?g ?el \<noteq> []" by simp
  from assms ne obtain best rest where
    sorted: "sort_key ?f (map ?g ?el) = best # rest"
    and r: "r = \<lparr>sr_workerId = ws_workerId best, sr_score = ws_score best,
                 sr_reasoning = Selected best (task_id task) (priority task),
                 alternatives = rest\<rparr>"
    by (auto simp: score_def Let_def split: if_splits list.splits)
  from sort_key_hd [OF ne', of ?f] obtain ys b zs where
    split: "map ?g ?el = ys @ b # zs"
    and lt: "\<forall>y\<in>set ys. ?f b < ?f y" and le: "\<forall>z\<in>set zs. ?f b \<le> ?f z"
    and hd: "hd (sort_key ?f (map ?g ?el)) = b"
    by blast
  from hd sorted have b: "b = best" by simp
  from split obtain before w after where
    el: "?el = before @ w # after" and ys: "map ?g before = ys" and w: "?g w = b"
    and zs: "map ?g after = zs"
    by (auto simp: map_eq_append_conv map_eq_Cons_conv)
  have "sr_workerId r = worker_id w"
    using r b w scoreWorker_id [of cfg task pred w] by simp
  moreover have "sr_score r = ws_score (?g w)"
    using r b w by simp
  moreover have "\<forall>v\<in>set before. ws_score (?g v) < sr_score r"
    using lt ys r b by auto
  moreover have "\<forall>v\<in>set after. ws_score (?g v) \<le> sr_score r"
    using le zs r b by auto
  ultimately show ?thesis using el by blast
qed

lemma find_first_split:
  assumes "\<forall>v\<in>set before. \<not> P v" and "P w"
  shows "find P (before @ w # after) = Some w"
  using assms by (induction before) auto

lemma score_None_iff:
  "(score cfg task ws pred = None) =
   (filter (\<lambda>w. isWorkerEligible w (task_requiredCapabilities task)) ws = [])"
proof -
  let ?el = "filter (\<lambda>w. isWorkerEligible w (task_requiredCapabilities task)) ws"
  have "sort_key (\<lambda>s. - ws_score s) (map (scoreWorker cfg task pred) ?el) \<noteq> []" if "?el \<noteq> []"
    using that by (metis length_0_conv length_sort length_map)
  then show ?thesis
    by (auto simp: score_def Let_def split: list.splits)
qed

text \<open>
  C6, as the code has it: whenever some worker is eligible the scorer returns a result,
  and the sort by descending score is stable, so among the eligible workers that attain
  the maximal score it selects the one that comes first in the list it was given (every
  eligible worker before the chosen one scores strictly less, every one after it scores
  at most as much); without an eligible worker it returns nothing. The chosen id is a
  function of the inputs alone, the id of the first eligible worker whose score no other
  eligible worker exceeds, so equal inputs give the same choice.
\<close>

theorem score_tie_breaking:
  "(filter (\<lambda>w. isWorkerEligible w (task_requiredCapabilities task)) ws = [] \<longrightarrow>
      score cfg task ws pred = None) \<and>
   (filter (\<lambda>w. isWorkerEligible w (task_requiredCapabilities task)) ws \<noteq> [] \<longrightarrow>
      (\<exists>r before w after.
         score cfg task ws pred = Some r \<and>
         filter (\<lambda>w. isWorkerEligible w (task_requiredCapabilities task)) ws
           = before @ w # after \<and>
         sr_workerId r = worker_id w \<and>
         sr_score r = ws_score (scoreWorker cfg task pred w) \<and>
         (\<forall>v\<in>set before. ws_score (scoreWorker cfg task pred v) < sr_score r) \<and>
         (\<forall>v\<in>set after. ws_score (scoreWorker cfg task pred v) \<le> sr_score r))) \<and>
   map_option sr_workerId (score cfg task ws pred) =
     map_option worker_id
       (find (\<lambda>w. \<forall>v\<in>set (filter (\<lambda>w. isWorkerEligible w (task_requiredCapabilities task)) ws).
                 ws_score (scoreWorker cfg task pred v) \<le> ws_score (scoreWorker cfg task pred w))
          (filter (\<lambda>w. isWorkerEligible w (task_requiredCapabilities task)) ws))"
proof -
  let ?el = "filter (\<lambda>w. isWorkerEligible w (task_requiredCapabilities task)) ws"
  let ?sc = "\<lambda>v. ws_score (scoreWorker cfg task pred v)"
  let ?P = "\<lambda>w. \<forall>v\<in>set ?el. ?sc v \<le> ?sc w"
  show ?thesis
  proof (cases "?el = []")
    case True
    then have "score cfg task ws pred = None" by (simp add: score_None_iff)
    with True show ?thesis by simp
  next
    case False
    then obtain r where r: "score cfg task ws pred = Some r"
      using score_None_iff [of cfg task ws pred] by auto
    from score_first_maximal [OF r] obtain before w after where
      el: "?el = before @ w # after" and wid: "sr_workerId r = worker_id w"
      and sc: "sr_score r = ?sc w"
      and lt: "\<forall>v\<in>set before. ?sc v < sr_score r"
      and le: "\<forall>v\<in>set after. ?sc v \<le> sr_score r"
      by blast
    have Pw: "?P w"
      unfolding el using lt le sc by auto
    have nP: "\<forall>v\<in>set before. \<not> ?P v"
    proof
      fix v assume v: "v \<in> set before"
      have "w \<in> set ?el" unfolding el by simp
      moreover have "?sc v < ?sc w" using lt v sc by simp
      ultimately show "\<not> ?P v" by (meson not_less)
    qed
    have "find ?P (before @ w # after) = Some w"
      using nP Pw by (rule find_first_split)
    then have f: "find ?P ?el = Some w"
      using el by simp
    show ?thesis
      using False r el wid sc lt le f by auto
  qed
qed

theorem score_tie_breaking_witness:
  "filter (\<lambda>w. isWorkerEligible w (task_requiredCapabilities (createTask 0 ''t1'')))
     [createWorker 0 ''w2'', createWorker 0 ''w1''] \<noteq> [] \<and>
   (\<exists>r before w after.
      score DEFAULT_SCORER_CONFIG (createTask 0 ''t1'')
        [createWorker 0 ''w2'', createWorker 0 ''w1''] None = Some r \<and>
      filter (\<lambda>w. isWorkerEligible w (task_requiredCapabilities (createTask 0 ''t1'')))
        [createWorker 0 ''w2'', createWorker 0 ''w1''] = before @ w # after \<and>
      sr_workerId r = worker_id w \<and>
      sr_score r = ws_score (scoreWorker DEFAULT_SCORER_CONFIG (createTask 0 ''t1'') None w)) \<and>
   score DEFAULT_SCORER_CONFIG (createTask 0 ''t1'') [] None = None"
proof -
  have ne: "filter (\<lambda>w. isWorkerEligible w (task_requiredCapabilities (createTask 0 ''t1'')))
     [createWorker 0 ''w2'', createWorker 0 ''w1''] \<noteq> []"
    by (simp add: isWorkerEligible_def createWorker_def createTask_def
        task_requiredCapabilities_def)
  from score_tie_breaking [where cfg = DEFAULT_SCORER_CONFIG and task = "createTask 0 ''t1''"
      and ws = "[createWorker 0 ''w2'', createWorker 0 ''w1'']" and pred = None] ne
  have "\<exists>r before w after.
      score DEFAULT_SCORER_CONFIG (createTask 0 ''t1'')
        [createWorker 0 ''w2'', createWorker 0 ''w1''] None = Some r \<and>
      filter (\<lambda>w. isWorkerEligible w (task_requiredCapabilities (createTask 0 ''t1'')))
        [createWorker 0 ''w2'', createWorker 0 ''w1''] = before @ w # after \<and>
      sr_workerId r = worker_id w \<and>
      sr_score r = ws_score (scoreWorker DEFAULT_SCORER_CONFIG (createTask 0 ''t1'') None w)"
    by blast
  moreover have "score DEFAULT_SCORER_CONFIG (createTask 0 ''t1'') [] None = None"
    using score_tie_breaking [where cfg = DEFAULT_SCORER_CONFIG
        and task = "createTask 0 ''t1''" and ws = "[]" and pred = None]
    by simp
  ultimately show ?thesis using ne by blast
qed

section \<open>Properties of the dispatcher\<close>

lemma dispatchTask_predict_redis:
  "redis (snd (dispatchTask_predict e task d)) = redis d"
  by (simp add: dispatchTask_predict_def recordFailure_def resetCircuitBreaker_def Let_def
      split: sum.splits option.splits)

lemma dispatchTask_fallback_redis:
  "redis (snd (dispatchTask_fallback e task (x, d))) = redis d"
  by (simp add: dispatchTask_fallback_def Let_def case_prod_beta split: option.splits)

lemma dispatchTask_fallback_breaker:
  "circuitBreaker (snd (dispatchTask_fallback e task (x, d))) = circuitBreaker d"
  by (simp add: dispatchTask_fallback_def Let_def case_prod_beta split: option.splits)

lemma dispatchTask_publish_breaker:
  "circuitBreaker (snd (dispatchTask_publish e task mid dec d)) = circuitBreaker d"
  by (simp add: dispatchTask_publish_def Let_def split: option.splits)

lemma dispatchTask_breaker:
  "circuitBreaker (snd (dispatchTask e task mid d)) =
   circuitBreaker (snd (dispatchTask_predict e task d))"
proof -
  obtain x d1 where p: "dispatchTask_predict e task d = (x, d1)"
    by (cases "dispatchTask_predict e task d")
  obtain r d2 where f: "dispatchTask_fallback e task (x, d1) = (r, d2)"
    by (cases "dispatchTask_fallback e task (x, d1)")
  have d2: "circuitBreaker d2 = circuitBreaker d1"
    using dispatchTask_fallback_breaker [of e task x d1] f by simp
  show ?thesis
  proof (cases r)
    case (Inl err)
    then show ?thesis using p f d2 by (simp add: dispatchTask_def)
  next
    case (Inr o1)
    show ?thesis
    proof (cases o1)
      case None
      then show ?thesis using Inr p f d2 by (simp add: dispatchTask_def)
    next
      case (Some dec)
      then show ?thesis
        using Inr p f d2 dispatchTask_publish_breaker [of e task mid dec d2]
        by (simp add: dispatchTask_def case_prod_beta)
    qed
  qed
qed

lemmas test_defs =
  test_dispatcher_def test_env_def connect_def new_Dispatcher_def register_def
  createWorker_def createTask_def new_WorkerRegistry_def registry_get_def

lemma dispatchTask_open_skips_predictor:
  assumes "isOpen (circuitBreaker d)"
  shows "dispatchTask_predict e task d = (None, d)"
  using assms by (simp add: dispatchTask_predict_def)

lemma dispatchTask_fallback_predictor:
  "dispatchTask_fallback (e\<lparr>predictor := q\<rparr>) task sd = dispatchTask_fallback e task sd"
  by (simp add: dispatchTask_fallback_def Let_def cong: prod.case_cong option.case_cong)

lemma dispatchTask_publish_predictor:
  "dispatchTask_publish (e\<lparr>predictor := q\<rparr>) task mid dec d = dispatchTask_publish e task mid dec d"
  by (simp add: dispatchTask_publish_def Let_def cong: option.case_cong if_cong)

text \<open>
  C1 fails as stated: with the breaker closed after two failures, a prediction that the
  predictor returns without throwing, but whose recommended worker is not registered
  (the heuristic predictor leaves the field empty), resets nothing; the two failures
  stay.
\<close>

theorem breaker_reset_counterexample:
  "circuitBreaker
     (snd (dispatchTask
             ((test_env ''w1'')\<lparr>predictor :=
                (\<lambda>t. Inr (Some (predict DEFAULT_PREDICTOR_CONFIG Map.empty t)))\<rparr>)
             (createTask 1000 ''t1'') (Some ''1-0'')
             (test_dispatcher\<lparr>circuitBreaker :=
                \<lparr>failures = 2, lastFailure = Some 500, isOpen = False\<rparr>\<rparr>)))
     = \<lparr>failures = 2, lastFailure = Some 500, isOpen = False\<rparr>"
  by (simp add: dispatchTask_breaker dispatchTask_predict_def predict_def test_defs)

text \<open>
  C1, as the code has it: when the breaker is not open (whatever failures it has
  accumulated) and the predictor returns a prediction whose recommended worker is
  registered and neither offline nor draining, \<open>dispatchTask\<close> leaves the breaker closed
  with all fields reset. When the breaker is open, \<open>dispatchTask\<close> does not call the
  predictor, so its result and final state are the same for every predictor, and it
  leaves the breaker as it is.
\<close>

theorem breaker_reset_rule:
  "(\<not> isOpen (circuitBreaker d) \<and> predictor e task = Inr (Some p) \<and>
    registry_get (registry d) (recommendedWorkerId p) = Some worker \<and>
    status worker \<noteq> offline \<and> status worker \<noteq> draining \<longrightarrow>
      circuitBreaker (snd (dispatchTask e task messageId d)) =
        \<lparr>failures = 0, lastFailure = None, isOpen = False\<rparr>) \<and>
   (isOpen (circuitBreaker d) \<longrightarrow>
      dispatchTask (e\<lparr>predictor := q\<rparr>) task messageId d = dispatchTask e task messageId d \<and>
      circuitBreaker (snd (dispatchTask e task messageId d)) = circuitBreaker d)"
proof -
  have "dispatchTask (e\<lparr>predictor := q\<rparr>) task messageId d = dispatchTask e task messageId d"
    if "isOpen (circuitBreaker d)"
    unfolding dispatchTask_def dispatchTask_open_skips_predictor [OF that]
      dispatchTask_fallback_predictor dispatchTask_publish_predictor
    by (simp cong: prod.case_cong sum.case_cong option.case_cong)
  moreover have "circuitBreaker (snd (dispatchTask e task messageId d)) = circuitBreaker d"
    if "isOpen (circuitBreaker d)"
    unfolding dispatchTask_breaker dispatchTask_open_skips_predictor [OF that] by simp
  moreover have "circuitBreaker (snd (dispatchTask e task messageId d)) =
        \<lparr>failures = 0, lastFailure = None, isOpen = False\<rparr>"
    if "\<not> isOpen (circuitBreaker d)" "predictor e task = Inr (Some p)"
      "registry_get (registry d) (recommendedWorkerId p) = Some worker"
      "status worker \<noteq> offline" "status worker \<noteq> draining"
    unfolding dispatchTask_breaker using that
    by (simp add: dispatchTask_predict_def resetCircuitBreaker_def)
  ultimately show ?thesis by blast
qed

theorem breaker_reset_rule_witness:
  "circuitBreaker
     (snd (dispatchTask (test_env ''w1'') (createTask 1000 ''t1'') (Some ''1-0'')
             (test_dispatcher\<lparr>circuitBreaker :=
                \<lparr>failures = 2, lastFailure = Some 500, isOpen = False\<rparr>\<rparr>)))
     = \<lparr>failures = 0, lastFailure = None, isOpen = False\<rparr> \<and>
   dispatchTask ((test_env ''w1'')\<lparr>predictor := (\<lambda>t. Inl (Error ''Prediction failed''))\<rparr>)
     (createTask 1000 ''t1'') (Some ''1-0'')
     (test_dispatcher\<lparr>circuitBreaker :=
        \<lparr>failures = 3, lastFailure = Some 500, isOpen = True\<rparr>\<rparr>)
     = dispatchTask (test_env ''w1'') (createTask 1000 ''t1'') (Some ''1-0'')
         (test_dispatcher\<lparr>circuitBreaker :=
            \<lparr>failures = 3, lastFailure = Some 500, isOpen = True\<rparr>\<rparr>) \<and>
   circuitBreaker
     (snd (dispatchTask (test_env ''w1'') (createTask 1000 ''t1'') (Some ''1-0'')
             (test_dispatcher\<lparr>circuitBreaker :=
                \<lparr>failures = 3, lastFailure = Some 500, isOpen = True\<rparr>\<rparr>)))
     = \<lparr>failures = 3, lastFailure = Some 500, isOpen = True\<rparr>"
  using
    breaker_reset_rule [where e = "test_env ''w1''" and task = "createTask 1000 ''t1''"
      and messageId = "Some ''1-0''"
      and d = "test_dispatcher\<lparr>circuitBreaker :=
                \<lparr>failures = 2, lastFailure = Some 500, isOpen = False\<rparr>\<rparr>"
      and p = "\<lparr>pred_taskId = ''t1'', recommendedWorkerId = ''w1'',
                 confidence = Finite (9 / 10), estimatedDurationMs = 1000,
                 alternativeWorkers = None\<rparr>"
      and worker = "createWorker 0 ''w1''"]
    breaker_reset_rule [where e = "test_env ''w1''" and task = "createTask 1000 ''t1''"
      and messageId = "Some ''1-0''"
      and q = "\<lambda>t. Inl (Error ''Prediction failed'')"
      and d = "test_dispatcher\<lparr>circuitBreaker :=
                \<lparr>failures = 3, lastFailure = Some 500, isOpen = True\<rparr>\<rparr>"]
  by (simp add: test_defs)

text \<open>
  C3: whenever a call of \<open>dispatchTask\<close> has formed a decision (by prediction or by
  fallback) on a connected dispatcher and the publish throws, the result is
  \<open>success = false\<close> with that decision and the error's message, and what Redis has seen
  is unchanged: nothing was published and no acknowledgment was issued.
\<close>

theorem publish_failure_atomicity:
  assumes formed: "dispatchTask_fallback e task (dispatchTask_predict e task d) = (Inr (Some dec), d2)"
    and connected: "redis d = Some r"
    and throws: "publish_throws e = Some err"
  shows "dispatchTask e task messageId d =
           (Inr \<lparr>dr_success = False, dr_decision = dec,
                 dr_error = Some (dispatch_error_message err)\<rparr>, d2) \<and>
         redis d2 = redis d"
proof -
  obtain x d1 where p: "dispatchTask_predict e task d = (x, d1)"
    by (cases "dispatchTask_predict e task d")
  have "redis d1 = redis d"
    using dispatchTask_predict_redis [of e task d] p by simp
  moreover have "redis d2 = redis d1"
    using dispatchTask_fallback_redis [of e task x d1] formed p by simp
  ultimately have r2: "redis d2 = Some r" using connected by simp
  then show ?thesis
    using formed throws connected by (simp add: dispatchTask_def dispatchTask_publish_def)
qed

theorem publish_failure_atomicity_witness:
  "dispatchTask ((test_env [])\<lparr>publish_throws := Some (Error ''Connection lost'')\<rparr>)
     (createTask 1000 ''t1'') (Some ''1-0'') test_dispatcher =
     (Inr \<lparr>dr_success = False,
           dr_decision = \<lparr>taskId = ''t1'', workerId = ''w1'', timestamp = 1000,
                          usedFallback = True, prediction = None,
                          reason = Fallback_round_robin\<rparr>,
           dr_error = Some ''Connection lost''\<rparr>,
      test_dispatcher\<lparr>rr_lastIndex := 0\<rparr>) \<and>
   redis (test_dispatcher\<lparr>rr_lastIndex := 0\<rparr>) = Some \<lparr>published = [], acked = []\<rparr>"
proof -
  let ?e = "(test_env [])\<lparr>publish_throws := Some (Error ''Connection lost'')\<rparr>"
  let ?dec = "\<lparr>taskId = ''t1'', workerId = ''w1'', timestamp = 1000,
                usedFallback = True, prediction = None, reason = Fallback_round_robin\<rparr>"
  have formed: "dispatchTask_fallback ?e (createTask 1000 ''t1'')
                  (dispatchTask_predict ?e (createTask 1000 ''t1'') test_dispatcher)
                = (Inr (Some ?dec), test_dispatcher\<lparr>rr_lastIndex := 0\<rparr>)"
    by (simp add: dispatchTask_fallback_def dispatchTask_predict_def schedule_def
        getAvailable_def hasCapabilities_def task_requiredCapabilities_def
        signed_modulo_int_def test_defs)
  have connected: "redis test_dispatcher = Some \<lparr>published = [], acked = []\<rparr>"
    by (simp add: test_defs)
  have throws: "publish_throws ?e = Some (Error ''Connection lost'')"
    by simp
  show ?thesis
    using publish_failure_atomicity [OF formed connected throws, of "Some ''1-0''"] connected
    by (simp add: dispatch_error_message_def)
qed

text \<open>
  C2 fails as stated: a stream entry whose payload is not JSON is logged and skipped, and
  its id is not acknowledged (nothing reaches Redis), while the same entry with a valid
  payload is dispatched and acknowledged.
\<close>

theorem parse_failure_counterexample:
  "redis (consume_entries test_builtins
            [(test_env [], (''1-0'', [''id'', ''t1'', ''payload'', ''{'']))] test_dispatcher)
     = Some \<lparr>published = [], acked = []\<rparr> \<and>
   map_option acked
     (redis (consume_entries test_builtins
            [(test_env [], (''1-0'', [''id'', ''t1'', ''payload'', ''{}'']))] test_dispatcher))
     = Some [''1-0'']"
  by (simp add: consume_entry_def parseTask_def field_value_def or_else_def test_builtins_def
      dispatchTask_def dispatchTask_fallback_def dispatchTask_predict_def
      dispatchTask_publish_def schedule_def getAvailable_def hasCapabilities_def
      task_requiredCapabilities_def signed_modulo_int_def test_defs)

text \<open>
  C2, as the code has it: for every stream entry whose fields fail to parse into a task,
  the dispatcher loop logs the error and goes on to the next entry without dispatching
  and without acknowledging the message; what Redis has seen is unchanged.
\<close>

theorem parse_failure_not_acked:
  assumes "fst (parseTask b (env_now e) mid flds d) = None"
  shows "consume_entry b e (mid, flds) d =
           (None, d\<lparr>console := console d @
                      [Console_error ''Failed to parse task:'' (Error ''SyntaxError'')]\<rparr>) \<and>
         redis (snd (consume_entry b e (mid, flds) d)) = redis d \<and>
         consume_entries b ((e, (mid, flds)) # rest) d =
           consume_entries b rest
             (d\<lparr>console := console d @
                  [Console_error ''Failed to parse task:'' (Error ''SyntaxError'')]\<rparr>)"
  using assms
  by (auto simp: consume_entry_def parseTask_def Let_def split: option.splits)

theorem parse_failure_not_acked_witness:
  "fst (parseTask test_builtins (env_now (test_env [])) ''1-0''
          [''id'', ''t1'', ''payload'', ''{''] test_dispatcher) = None \<and>
   consume_entry test_builtins (test_env []) (''1-0'', [''id'', ''t1'', ''payload'', ''{''])
     test_dispatcher =
     (None, test_dispatcher\<lparr>console := console test_dispatcher @
                [Console_error ''Failed to parse task:'' (Error ''SyntaxError'')]\<rparr>) \<and>
   redis (snd (consume_entry test_builtins (test_env [])
                 (''1-0'', [''id'', ''t1'', ''payload'', ''{'']) test_dispatcher))
     = redis test_dispatcher"
proof -
  have h: "fst (parseTask test_builtins (env_now (test_env [])) ''1-0''
          [''id'', ''t1'', ''payload'', ''{''] test_dispatcher) = None"
    by (simp add: parseTask_def field_value_def or_else_def test_builtins_def)
  show ?thesis
    using h parse_failure_not_acked [OF h] by simp
qed

end
